theory Spec2Isabelle
  imports Complex_Main
begin

section \<open>Python and numpy values\<close>

text \<open>
  The exceptions the modelled code can raise. \<open>ListNotAssigned\<close> marks a read of a
  membership list inside the processing pipeline that does not find an index array (it
  would enter the loader, or fail on the value found); the pipeline writes an array
  before every such read, so this value marks a path the pipeline itself never takes.
\<close>

datatype error = IndexError | KeyError | AttributeError | ListNotAssigned

definition ebind :: "error + 'a \<Rightarrow> ('a \<Rightarrow> error + 'b) \<Rightarrow> error + 'b" where
  "ebind m f = (case m of Inl e \<Rightarrow> Inl e | Inr x \<Rightarrow> f x)"

text \<open>
  numpy float64 values. Finite values are idealised as reals (rounding and overflow are
  not modelled, and zero is taken as positive zero); the special values that numpy
  produces instead of raising (division by zero, square root or fractional power of a
  negative number) are explicit.
\<close>

datatype npfloat = Finite real | PosInf | NegInf | NaN

fun np_neg :: "npfloat \<Rightarrow> npfloat" where
  "np_neg (Finite x) = Finite (- x)"
| "np_neg PosInf = NegInf"
| "np_neg NegInf = PosInf"
| "np_neg NaN = NaN"

fun np_add :: "npfloat \<Rightarrow> npfloat \<Rightarrow> npfloat" where
  "np_add (Finite x) (Finite y) = Finite (x + y)"
| "np_add NaN b = NaN"
| "np_add a NaN = NaN"
| "np_add PosInf NegInf = NaN"
| "np_add NegInf PosInf = NaN"
| "np_add PosInf b = PosInf"
| "np_add a PosInf = PosInf"
| "np_add NegInf b = NegInf"
| "np_add a NegInf = NegInf"

definition np_sub :: "npfloat \<Rightarrow> npfloat \<Rightarrow> npfloat" where
  "np_sub a b = np_add a (np_neg b)"

fun np_sgn :: "npfloat \<Rightarrow> int" where
  "np_sgn (Finite x) = (if 0 < x then 1 else if x < 0 then - 1 else 0)"
| "np_sgn PosInf = 1"
| "np_sgn NegInf = - 1"
| "np_sgn NaN = 0"

definition np_signed_inf :: "int \<Rightarrow> npfloat" where
  "np_signed_inf s = (if 0 < s then PosInf else if s < 0 then NegInf else NaN)"

fun np_mul :: "npfloat \<Rightarrow> npfloat \<Rightarrow> npfloat" where
  "np_mul (Finite x) (Finite y) = Finite (x * y)"
| "np_mul NaN b = NaN"
| "np_mul a NaN = NaN"
| "np_mul a b = np_signed_inf (np_sgn a * np_sgn b)"

fun np_div :: "npfloat \<Rightarrow> npfloat \<Rightarrow> npfloat" where
  "np_div (Finite x) (Finite y) =
     (if y = 0 then np_signed_inf (np_sgn (Finite x)) else Finite (x / y))"
| "np_div NaN b = NaN"
| "np_div a NaN = NaN"
| "np_div (Finite x) b = Finite 0"
| "np_div a (Finite y) = np_signed_inf (np_sgn a * (if y < 0 then - 1 else 1))"
| "np_div a b = NaN"

fun np_sqrt :: "npfloat \<Rightarrow> npfloat" where
  "np_sqrt (Finite x) = (if x < 0 then NaN else Finite (sqrt x))"
| "np_sqrt PosInf = PosInf"
| "np_sqrt NegInf = NaN"
| "np_sqrt NaN = NaN"

text \<open>\<open>x ** (1./3.)\<close>: the exponent is idealised as one third.\<close>

fun np_pow_third :: "npfloat \<Rightarrow> npfloat" where
  "np_pow_third (Finite x) = (if x < 0 then NaN else Finite (x powr (1 / 3)))"
| "np_pow_third PosInf = PosInf"
| "np_pow_third NegInf = PosInf"
| "np_pow_third NaN = NaN"

definition np_square :: "npfloat \<Rightarrow> npfloat" where
  "np_square a = np_mul a a"

fun np_gt0 :: "npfloat \<Rightarrow> bool" where
  "np_gt0 (Finite x) = (0 < x)"
| "np_gt0 PosInf = True"
| "np_gt0 NegInf = False"
| "np_gt0 NaN = False"

definition np_sum :: "npfloat list \<Rightarrow> npfloat" where
  "np_sum xs = foldl np_add (Finite 0) xs"

text \<open>\<open>np.where(cond)[0]\<close>: the positions at which the condition holds, ascending.\<close>

definition np_where :: "('a \<Rightarrow> bool) \<Rightarrow> 'a list \<Rightarrow> nat list" where
  "np_where P xs = filter (\<lambda>i. P (xs ! i)) [0..<length xs]"

text \<open>
  Indexing an array of length \<open>n\<close> with an integer: negative indices count from the
  end, anything else out of range raises IndexError.
\<close>

definition np_index :: "nat \<Rightarrow> int \<Rightarrow> error + nat" where
  "np_index n i =
     (if 0 \<le> i \<and> i < int n then Inr (nat i)
      else if - int n \<le> i \<and> i < 0 then Inr (nat (int n + i))
      else Inl IndexError)"

text \<open>\<open>v[indexes]\<close> with a sequence of integers (fancy indexing).\<close>

fun np_take :: "'a list \<Rightarrow> int list \<Rightarrow> error + 'a list" where
  "np_take xs [] = Inr []"
| "np_take xs (i # js) =
     ebind (np_index (length xs) i) (\<lambda>j.
     ebind (np_take xs js) (\<lambda>ys. Inr (xs ! j # ys)))"

text \<open>\<open>del lst[i]\<close> on a Python list, for a non-negative position.\<close>

definition del_at :: "'a list \<Rightarrow> nat \<Rightarrow> error + 'a list" where
  "del_at xs i = (if i < length xs then Inr (take i xs @ drop (Suc i) xs) else Inl IndexError)"

text \<open>
  The values a membership-list attribute can hold: an index array, or anything else
  Python allows. \<open>isinstance(v, int)\<close> holds of ints and of bools.
\<close>

datatype pyval = PyInt int | PyBool bool | PyNone | PySeq "int list"

fun isinstance_int :: "pyval \<Rightarrow> bool" where
  "isinstance_int (PyInt n) = True"
| "isinstance_int (PyBool b) = True"
| "isinstance_int PyNone = False"
| "isinstance_int (PySeq xs) = False"

section \<open>The simulation context and the particle table\<close>

text \<open>
  The particle table \<open>pdata\<close> is a dict of parallel arrays (\<open>pos\<close>, \<open>vel\<close>,
  \<open>mass\<close>, \<open>ptype\<close>, \<open>indexes\<close>), all of one length; it is modelled as the list of
  its rows, so that indexing every column with the same index list is indexing the rows.
  The table's values are finite floats.
\<close>

type_synonym vec = "real \<times> real \<times> real"
type_synonym npvec = "npfloat \<times> npfloat \<times> npfloat"

record particle =
  pd_pos :: vec
  pd_vel :: vec
  pd_mass :: real
  pd_ptype :: int
  pd_indexes :: int

text \<open>
  What the code reads from \<open>self.obj\<close> and from \<open>property_getter.ptype_ints\<close>, neither of
  which is in the sources: the gravitational constant and the critical density (plain
  values, in kpc, Msun and s), the species codes, and yt's unit conversion, taken as a
  factor for each pair of units. \<open>Length\<close>, \<open>Velocity\<close>, \<open>Mass\<close> and \<open>Temperature\<close> stand
  for \<open>obj.units['length']\<close> and so on.
\<close>

datatype yt_unit = Length | Velocity | Mass | Temperature | Kpc | Kpc_s | Msun | Km | Km_s | Kelvin

record sim =
  sim_G :: real
  critical_density :: real
  conv :: "yt_unit \<Rightarrow> yt_unit \<Rightarrow> real"
  gas :: int
  star :: int
  dm :: int

definition yt_to :: "sim \<Rightarrow> yt_unit \<Rightarrow> yt_unit \<Rightarrow> npfloat \<Rightarrow> npfloat" where
  "yt_to env a b x = np_mul x (Finite (conv env a b))"

section \<open>Structures\<close>

definition UNBIND_HALOS :: bool where "UNBIND_HALOS = True"
definition UNBIND_GALAXIES :: bool where "UNBIND_GALAXIES = False"
definition MINIMUM_STARS_PER_GALAXY :: nat where "MINIMUM_STARS_PER_GALAXY = 32"
definition MINIMUM_DM_PER_HALO :: nat where "MINIMUM_DM_PER_HALO = 32"

datatype kind = Halo | Galaxy

text \<open>
  An instance of \<open>Halo\<close> or \<open>Galaxy\<close>. An attribute that the code creates, deletes or
  tests with \<open>hasattr\<close> is an option, \<open>None\<close> when the attribute is absent. The fields
  \<open>u_glist\<close>, \<open>u_slist\<close> and \<open>u_dmlist\<close> are the attributes \<open>_glist\<close>, \<open>_slist\<close> and
  \<open>_dmlist\<close> behind the descriptors (for a galaxy, which has no descriptor for it, the
  plain attribute \<open>dmlist\<close>); \<open>u_pdata\<close> is \<open>_pdata\<close>. \<open>particle_indexes\<close> is a Python
  list, as the constructor makes it.
\<close>

record group =
  obj_type :: kind
  particle_indexes :: "int list option"
  u_pdata :: "particle list option"
  particle_data :: "particle list option"
  u_glist :: "pyval option"
  u_slist :: "pyval option"
  u_dmlist :: "pyval option"
  ngas :: "nat option"
  nstar :: "nat option"
  ndm :: "nat option"
  masses :: "string \<rightharpoonup> real"
  radii :: "string \<rightharpoonup> npfloat"
  temperatures :: "string \<rightharpoonup> npfloat"
  pos :: "npvec option"
  vel :: "npvec option"
  unbound_indexes :: "(int \<rightharpoonup> int list) option"
  unbind_iterations :: "nat option"
  virial_quantities :: "(string \<rightharpoonup> npfloat) option"
  velocity_dispersions :: "(string \<rightharpoonup> real) option"
  total_angular_momentum :: "npfloat option"
  angular_momentum_vector :: "npvec option"
  spin :: "npfloat option"

text \<open>\<open>Group.__init__\<close>, through \<open>create_new_group\<close>.\<close>

definition create_new_group :: "kind \<Rightarrow> group" where
  "create_new_group k =
     \<lparr>obj_type = k, particle_indexes = Some [], u_pdata = None, particle_data = None,
      u_glist = None, u_slist = None, u_dmlist = None,
      ngas = None, nstar = None, ndm = None,
      masses = Map.empty, radii = Map.empty, temperatures = Map.empty,
      pos = None, vel = None, unbound_indexes = None, unbind_iterations = None,
      virial_quantities = None, velocity_dispersions = None,
      total_angular_momentum = None, angular_momentum_vector = None, spin = None\<rparr>"

definition attr :: "'a option \<Rightarrow> error + 'a" where
  "attr a = (case a of None \<Rightarrow> Inl AttributeError | Some v \<Rightarrow> Inr v)"

definition item :: "('k \<rightharpoonup> 'v) \<Rightarrow> 'k \<Rightarrow> error + 'v" where
  "item d k = (case d k of None \<Rightarrow> Inl KeyError | Some v \<Rightarrow> Inr v)"

definition valid :: "group \<Rightarrow> error + bool" where
  "valid g =
     (case obj_type g of
        Halo \<Rightarrow> ebind (attr (ndm g)) (\<lambda>n. Inr (\<not> n < MINIMUM_DM_PER_HALO))
      | Galaxy \<Rightarrow> ebind (attr (nstar g)) (\<lambda>n. Inr (\<not> n < MINIMUM_STARS_PER_GALAXY)))"

definition cleanup :: "group \<Rightarrow> group" where
  "cleanup g = g\<lparr>particle_data := None, particle_indexes := None, u_pdata := None\<rparr>"

definition assign_particle_data :: "group \<Rightarrow> error + group" where
  "assign_particle_data g =
     ebind (attr (u_pdata g)) (\<lambda>pd.
     ebind (attr (particle_indexes g)) (\<lambda>idx.
     ebind (np_take pd idx) (\<lambda>rows. Inr (g\<lparr>particle_data := Some rows\<rparr>))))"

text \<open>
  A read of a membership list inside the pipeline goes through the descriptor, which
  returns the array that the pipeline wrote before.
\<close>

definition pipeline_read :: "pyval option \<Rightarrow> error + int list" where
  "pipeline_read a = (case a of Some (PySeq xs) \<Rightarrow> Inr xs | _ \<Rightarrow> Inl ListNotAssigned)"

definition local_where :: "int \<Rightarrow> particle list \<Rightarrow> int list" where
  "local_where c rows = map int (np_where (\<lambda>p. pd_ptype p = c) rows)"

definition assign_local_indexes :: "sim \<Rightarrow> group \<Rightarrow> error + group" where
  "assign_local_indexes env g =
     ebind (attr (particle_data g)) (\<lambda>rows.
       let gl = local_where (gas env) rows;
           sl = local_where (star env) rows;
           dl = local_where (dm env) rows
       in Inr (g\<lparr>u_glist := Some (PySeq gl), u_slist := Some (PySeq sl),
                 u_dmlist := Some (PySeq dl),
                 ngas := Some (length gl), nstar := Some (length sl),
                 ndm := Some (length dl)\<rparr>))"

definition calculate_total_mass :: "group \<Rightarrow> error + group" where
  "calculate_total_mass g =
     ebind (attr (particle_data g)) (\<lambda>rows.
       Inr (g\<lparr>masses := (masses g)(''total'' \<mapsto> sum_list (map pd_mass rows))\<rparr>))"

fun vx :: "'a \<times> 'a \<times> 'a \<Rightarrow> 'a" where "vx (a, b, c) = a"
fun vy :: "'a \<times> 'a \<times> 'a \<Rightarrow> 'a" where "vy (a, b, c) = b"
fun vz :: "'a \<times> 'a \<times> 'a \<Rightarrow> 'a" where "vz (a, b, c) = c"

definition get_center_of_mass_quantity ::
    "(particle \<Rightarrow> vec) \<Rightarrow> particle list \<Rightarrow> real \<Rightarrow> npvec" where
  "get_center_of_mass_quantity quantity rows mtot =
     (let val = (\<lambda>c. Finite (sum_list (map (\<lambda>p. pd_mass p * c (quantity p)) rows)))
      in (np_div (val vx) (Finite mtot), np_div (val vy) (Finite mtot),
          np_div (val vz) (Finite mtot)))"

definition calculate_center_of_mass_quantities :: "group \<Rightarrow> error + group" where
  "calculate_center_of_mass_quantities g =
     ebind (attr (particle_data g)) (\<lambda>rows.
     ebind (item (masses g) ''total'') (\<lambda>mtot.
       Inr (g\<lparr>pos := Some (get_center_of_mass_quantity pd_pos rows mtot),
               vel := Some (get_center_of_mass_quantity pd_vel rows mtot)\<rparr>)))"

subsection \<open>Unbinding\<close>

lemma ebind_cong [fundef_cong]:
  "m = m' \<Longrightarrow> (\<And>x. m' = Inr x \<Longrightarrow> f x = f' x) \<Longrightarrow> ebind m f = ebind m' f'"
  by (cases m') (simp_all add: ebind_def)

definition fresh_ledger :: "sim \<Rightarrow> (int \<rightharpoonup> int list)" where
  "fresh_ledger env = [gas env \<mapsto> [], star env \<mapsto> [], dm env \<mapsto> []]"

text \<open>
  \<open>(p[:,0] - c[0])**2 + (p[:,1] - c[1])**2 + (p[:,2] - c[2])**2\<close> for one row \<open>p\<close>,
  already converted, and the converted centre \<open>c\<close>.
\<close>

definition sep_sq :: "vec \<Rightarrow> npvec \<Rightarrow> npfloat" where
  "sep_sq p c =
     np_add (np_add (np_square (np_sub (Finite (vx p)) (vx c)))
                    (np_square (np_sub (Finite (vy p)) (vy c))))
            (np_square (np_sub (Finite (vz p)) (vz c)))"

definition scale_vec :: "real \<Rightarrow> vec \<Rightarrow> vec" where
  "scale_vec k p = (vx p * k, vy p * k, vz p * k)"

definition to_vec :: "sim \<Rightarrow> yt_unit \<Rightarrow> yt_unit \<Rightarrow> npvec \<Rightarrow> npvec" where
  "to_vec env a b c = (yt_to env a b (vx c), yt_to env a b (vy c), yt_to env a b (vz c))"

text \<open>The energy of one row, from the converted centre of mass and the total mass.\<close>

definition particle_energy :: "sim \<Rightarrow> npvec \<Rightarrow> npvec \<Rightarrow> real \<Rightarrow> particle \<Rightarrow> npfloat" where
  "particle_energy env cmpos cmvel mtot p =
     (let r = np_sqrt (sep_sq (scale_vec (conv env Length Kpc) (pd_pos p)) cmpos);
          v2 = sep_sq (scale_vec (conv env Velocity Kpc_s) (pd_vel p)) cmvel;
          mass = pd_mass p * conv env Mass Msun
      in np_add (np_neg (np_div (Finite (mass * sim_G env * (mtot - mass))) r))
                (np_mul (Finite (0.5 * mass)) v2))"

definition unbind_energy :: "sim \<Rightarrow> group \<Rightarrow> error + npfloat list" where
  "unbind_energy env g =
     ebind (attr (pos g)) (\<lambda>cm.
     ebind (attr (particle_data g)) (\<lambda>rows.
     ebind (attr (vel g)) (\<lambda>cv.
     ebind (item (masses g) ''total'') (\<lambda>mtot.
       Inr (map (particle_energy env (to_vec env Length Kpc cm)
                   (to_vec env Velocity Kpc_s cv) mtot) rows)))))"

text \<open>The loop \<open>for i in positive\<close> of \<open>_unbind\<close>, over the reversed positions.\<close>

fun unbind_loop :: "nat list \<Rightarrow> group \<Rightarrow> error + group" where
  "unbind_loop [] g = Inr g"
| "unbind_loop (i # rest) g =
     ebind (attr (unbound_indexes g)) (\<lambda>led.
     ebind (attr (particle_data g)) (\<lambda>rows.
     ebind (if i < length rows then Inr (rows ! i) else Inl IndexError) (\<lambda>p.
     ebind (item led (pd_ptype p)) (\<lambda>l.
     ebind (attr (particle_indexes g)) (\<lambda>idx.
     ebind (del_at idx i) (\<lambda>idx'.
       unbind_loop rest
         (g\<lparr>unbound_indexes := Some (led(pd_ptype p \<mapsto> l @ [pd_indexes p])),
            particle_indexes := Some idx'\<rparr>)))))))"

definition unbind_gated :: "group \<Rightarrow> bool" where
  "unbind_gated g =
     (if obj_type g = Halo \<and> \<not> UNBIND_HALOS then True
      else if obj_type g = Galaxy \<and> \<not> UNBIND_GALAXIES then True
      else False)"

text \<open>The head of \<open>_unbind\<close>: the ledger and the counter are created when absent.\<close>

definition unbind_enter :: "sim \<Rightarrow> group \<Rightarrow> group" where
  "unbind_enter env g =
     g\<lparr>unbound_indexes :=
         Some (case unbound_indexes g of None \<Rightarrow> fresh_ledger env | Some led \<Rightarrow> led),
       unbind_iterations :=
         Some ((case unbind_iterations g of None \<Rightarrow> 0 | Some n \<Rightarrow> n) + 1)\<rparr>"

definition positive_of :: "npfloat list \<Rightarrow> nat list" where
  "positive_of energy = np_where np_gt0 energy"

definition plen :: "group \<Rightarrow> nat" where
  "plen g = (case particle_indexes g of None \<Rightarrow> 0 | Some idx \<Rightarrow> length idx)"

lemma del_at_length: "del_at xs i = Inr ys \<Longrightarrow> Suc (length ys) = length xs"
  by (auto simp: del_at_def split: if_splits)

lemma unbind_loop_Cons_Inr:
  assumes "unbind_loop (i # rest) g = Inr g'"
  shows "\<exists>led rows l idx idx'.
           unbound_indexes g = Some led \<and> particle_data g = Some rows \<and> i < length rows \<and>
           led (pd_ptype (rows ! i)) = Some l \<and> particle_indexes g = Some idx \<and>
           del_at idx i = Inr idx' \<and>
           unbind_loop rest
             (g\<lparr>unbound_indexes :=
                  Some (led(pd_ptype (rows ! i) \<mapsto> l @ [pd_indexes (rows ! i)])),
                particle_indexes := Some idx'\<rparr>) = Inr g'"
  using assms
  by (auto simp: ebind_def attr_def item_def split: sum.splits option.splits if_splits)

lemma unbind_loop_plen: "unbind_loop ps g = Inr g' \<Longrightarrow> plen g' + length ps = plen g"
proof (induction ps arbitrary: g)
  case Nil
  then show ?case by simp
next
  case (Cons i rest)
  from unbind_loop_Cons_Inr [OF Cons.prems] obtain led rows l idx idx' where
    idx: "particle_indexes g = Some idx" and d: "del_at idx i = Inr idx'" and
    "particle_data g = Some rows" and
    r: "unbind_loop rest
         (g\<lparr>unbound_indexes :=
              Some (led(pd_ptype (rows ! i) \<mapsto> l @ [pd_indexes (rows ! i)])),
            particle_indexes := Some idx'\<rparr>) = Inr g'"
    by auto
  from Cons.IH [OF r] del_at_length [OF d] idx show ?case
    by (simp add: plen_def)
qed

lemma assign_particle_data_indexes:
  "assign_particle_data g = Inr g' \<Longrightarrow> particle_indexes g' = particle_indexes g"
  by (auto simp: assign_particle_data_def ebind_def attr_def split: sum.splits option.splits)

lemma assign_local_indexes_indexes:
  "assign_local_indexes env g = Inr g' \<Longrightarrow> particle_indexes g' = particle_indexes g"
  by (auto simp: assign_local_indexes_def ebind_def attr_def Let_def
      split: sum.splits option.splits)

lemma calculate_total_mass_indexes:
  "calculate_total_mass g = Inr g' \<Longrightarrow> particle_indexes g' = particle_indexes g"
  by (auto simp: calculate_total_mass_def ebind_def attr_def split: sum.splits option.splits)

lemma calculate_center_of_mass_quantities_indexes:
  "calculate_center_of_mass_quantities g = Inr g' \<Longrightarrow>
   particle_indexes g' = particle_indexes g"
  by (auto simp: calculate_center_of_mass_quantities_def ebind_def attr_def item_def
      split: sum.splits option.splits)

text \<open>
  The steps of \<open>_unbind\<close> after a pass that removed something: the particle data and
  the local lists are rebuilt, and the structure is checked. The result is the rebuilt
  structure and whether it is still valid.
\<close>

definition unbind_reassign :: "sim \<Rightarrow> group \<Rightarrow> error + (group \<times> bool)" where
  "unbind_reassign env g =
     ebind (assign_particle_data g) (\<lambda>g3.
     ebind (assign_local_indexes env g3) (\<lambda>g4.
     ebind (valid g4) (\<lambda>v. Inr (g4, v))))"

definition unbind_recentre :: "group \<Rightarrow> error + group" where
  "unbind_recentre g =
     ebind (calculate_total_mass g) (\<lambda>g5. calculate_center_of_mass_quantities g5)"

lemma unbind_reassign_plen: "unbind_reassign env g = Inr (g', v) \<Longrightarrow> plen g' = plen g"
  by (auto simp: unbind_reassign_def ebind_def plen_def
      dest!: assign_particle_data_indexes assign_local_indexes_indexes split: sum.splits)

lemma unbind_recentre_plen: "unbind_recentre g = Inr g' \<Longrightarrow> plen g' = plen g"
  by (auto simp: unbind_recentre_def ebind_def plen_def
      dest!: calculate_total_mass_indexes calculate_center_of_mass_quantities_indexes
      split: sum.splits)

lemma unbind_enter_plen: "plen (unbind_enter env g) = plen g"
  by (simp add: unbind_enter_def plen_def)

function unbind :: "sim \<Rightarrow> group \<Rightarrow> error + group" where
  "unbind env g =
     (if unbind_gated g then Inr g
      else
        ebind (unbind_energy env (unbind_enter env g)) (\<lambda>energy.
          if length (positive_of energy) > 0 then
            ebind (unbind_loop (rev (positive_of energy)) (unbind_enter env g)) (\<lambda>g2.
            ebind (unbind_reassign env g2) (\<lambda>(g4, v).
              if \<not> v then Inr g4
              else ebind (unbind_recentre g4) (\<lambda>g6. unbind env g6)))
          else Inr (unbind_enter env g)))"
  by pat_completeness auto
termination
proof (relation "measure (\<lambda>(env, g). plen g)", goal_cases)
  case 1
  show ?case by simp
next
  case (2 env g energy g2 x g4 v g6)
  from 2 have "plen g2 + length (rev (positive_of energy)) = plen (unbind_enter env g)"
    by (intro unbind_loop_plen) simp
  moreover from 2 have "plen g4 = plen g2"
    by (intro unbind_reassign_plen [of env g2 g4 v]) simp
  moreover from 2 have "plen g6 = plen g4"
    by (intro unbind_recentre_plen) simp
  moreover from 2 have "0 < length (positive_of energy)"
    by simp
  ultimately show ?case by (simp add: unbind_enter_plen del: length_greater_0_conv)
qed

declare unbind.simps [simp del]

subsection \<open>Derived quantities\<close>

definition calculate_masses :: "group \<Rightarrow> error + group" where
  "calculate_masses g =
     ebind (attr (particle_data g)) (\<lambda>rows.
     ebind (pipeline_read (u_dmlist g)) (\<lambda>dl.
     ebind (np_take (map pd_mass rows) dl) (\<lambda>md.
     ebind (pipeline_read (u_glist g)) (\<lambda>gl.
     ebind (np_take (map pd_mass rows) gl) (\<lambda>mg.
     ebind (pipeline_read (u_slist g)) (\<lambda>sl.
     ebind (np_take (map pd_mass rows) sl) (\<lambda>ms.
       let mass_dm = sum_list md;
           mass_gas = sum_list mg;
           mass_star = sum_list ms;
           mass_baryon = mass_gas + mass_star
       in calculate_total_mass
            (g\<lparr>masses := (masses g)(''dm'' \<mapsto> mass_dm, ''gas'' \<mapsto> mass_gas,
                                       ''stellar'' \<mapsto> mass_star,
                                       ''baryon'' \<mapsto> mass_baryon)\<rparr>))))))))"

definition get_r_vir :: "sim \<Rightarrow> real \<Rightarrow> real \<Rightarrow> npfloat" where
  "get_r_vir env mtot_msun deltaC =
     np_pow_third (np_div (Finite (3 * mtot_msun))
                          (Finite (4 * pi * critical_density env * deltaC)))"

definition calculate_virial_quantities :: "sim \<Rightarrow> group \<Rightarrow> error + group" where
  "calculate_virial_quantities env g =
     ebind (item (masses g) ''total'') (\<lambda>mtot.
       let m = mtot * conv env Mass Msun;
           rv = get_r_vir env m (18 * pi\<^sup>2);
           r200 = get_r_vir env m 200;
           vc = yt_to env Kpc_s Km_s (np_sqrt (np_div (Finite (sim_G env * m)) r200));
           vT = np_mul (Finite 360000) (np_square (np_div vc (Finite 100)));
           rv' = yt_to env Kpc Length rv;
           r200' = yt_to env Kpc Length r200;
           vc' = yt_to env Km_s Velocity vc;
           vT' = yt_to env Kelvin Temperature vT
       in Inr (g\<lparr>radii := (radii g)(''virial'' \<mapsto> rv', ''r200c'' \<mapsto> r200'),
                 temperatures := (temperatures g)(''virial'' \<mapsto> vT'),
                 virial_quantities :=
                   Some [''radius'' \<mapsto> rv', ''r200c'' \<mapsto> r200',
                         ''circular_velocity'' \<mapsto> vc', ''temperature'' \<mapsto> vT']\<rparr>))"

definition np_mean :: "real list \<Rightarrow> real" where
  "np_mean xs = sum_list xs / real (length xs)"

definition np_std :: "real list \<Rightarrow> real" where
  "np_std xs = sqrt (np_mean (map (\<lambda>x. (x - np_mean xs)\<^sup>2) xs))"

definition get_sigma :: "real list \<Rightarrow> real" where
  "get_sigma filtered_v =
     (if length filtered_v = 0 then 0
      else let v_mean = np_mean filtered_v;
               v_diff = map (\<lambda>x. x - v_mean) filtered_v
           in np_std v_diff)"

definition speed :: "particle \<Rightarrow> real" where
  "speed p = sqrt ((vx (pd_vel p))\<^sup>2 + (vy (pd_vel p))\<^sup>2 + (vz (pd_vel p))\<^sup>2)"

definition calculate_velocity_dispersions :: "sim \<Rightarrow> group \<Rightarrow> error + group" where
  "calculate_velocity_dispersions env g =
     ebind (attr (particle_data g)) (\<lambda>rows.
       let sel = (\<lambda>P. map speed (filter P rows))
       in Inr (g\<lparr>velocity_dispersions :=
                   Some [''all'' \<mapsto> get_sigma (map speed rows),
                         ''dm'' \<mapsto> get_sigma (sel (\<lambda>p. pd_ptype p = dm env)),
                         ''baryon'' \<mapsto> get_sigma (sel (\<lambda>p. pd_ptype p = gas env
                                                           \<or> pd_ptype p = star env)),
                         ''gas'' \<mapsto> get_sigma (sel (\<lambda>p. pd_ptype p = gas env)),
                         ''stellar'' \<mapsto> get_sigma (sel (\<lambda>p. pd_ptype p = star env))]\<rparr>))"

definition calculate_angular_quantities :: "sim \<Rightarrow> group \<Rightarrow> error + group" where
  "calculate_angular_quantities env g =
     ebind (attr (particle_data g)) (\<lambda>rows.
     ebind (attr (pos g)) (\<lambda>c.
       let px = (\<lambda>p. Finite (pd_mass p * vx (pd_vel p)));
           py = (\<lambda>p. Finite (pd_mass p * vy (pd_vel p)));
           pz = (\<lambda>p. Finite (pd_mass p * vz (pd_vel p)));
           x = (\<lambda>p. yt_to env Length Km (np_sub (Finite (vx (pd_pos p))) (vx c)));
           y = (\<lambda>p. yt_to env Length Km (np_sub (Finite (vy (pd_pos p))) (vy c)));
           z = (\<lambda>p. yt_to env Length Km (np_sub (Finite (vz (pd_pos p))) (vz c)));
           Lx = np_sum (map (\<lambda>p. np_sub (np_mul (y p) (pz p)) (np_mul (z p) (py p))) rows);
           Ly = np_sum (map (\<lambda>p. np_sub (np_mul (z p) (px p)) (np_mul (x p) (pz p))) rows);
           Lz = np_sum (map (\<lambda>p. np_sub (np_mul (x p) (py p)) (np_mul (y p) (px p))) rows);
           L = np_sqrt (np_add (np_add (np_mul Lx Lx) (np_mul Ly Ly)) (np_mul Lz Lz))
       in
     ebind (item (masses g) ''total'') (\<lambda>mtot.
     ebind (attr (virial_quantities g)) (\<lambda>vq.
     ebind (item vq ''circular_velocity'') (\<lambda>vc.
     ebind (item vq ''r200c'') (\<lambda>r200.
       Inr (g\<lparr>total_angular_momentum := Some L,
               angular_momentum_vector := Some (Lx, Ly, Lz),
               spin := Some (np_div L
                        (np_mul (np_mul (Finite (14142135623730951 / 10 ^ 16 * mtot))
                                        (yt_to env Velocity Km_s vc))
                                (yt_to env Length Km r200)))\<rparr>)))))))"

definition assign_global_plists :: "group \<Rightarrow> error + group" where
  "assign_global_plists g =
     ebind (attr (particle_indexes g)) (\<lambda>idx.
     ebind (attr (particle_data g)) (\<lambda>rows.
     ebind (pipeline_read (u_glist g)) (\<lambda>gl.
     ebind (np_take (map pd_indexes rows) gl) (\<lambda>gg.
     ebind (pipeline_read (u_slist g)) (\<lambda>sl.
     ebind (np_take (map pd_indexes rows) sl) (\<lambda>sg.
     ebind (pipeline_read (u_dmlist g)) (\<lambda>dl.
     ebind (np_take (map pd_indexes rows) dl) (\<lambda>dg.
       Inr (g\<lparr>u_glist := Some (PySeq gg), u_slist := Some (PySeq sg),
               u_dmlist := Some (PySeq dg)\<rparr>)))))))))"

subsection \<open>The pipeline\<close>

text \<open>The body of the inner \<open>if self.valid\<close> of \<open>_process_group\<close>.\<close>

definition calculate_quantities :: "sim \<Rightarrow> group \<Rightarrow> error + group" where
  "calculate_quantities env g =
     ebind (calculate_masses g) (\<lambda>g1.
     ebind (calculate_virial_quantities env g1) (\<lambda>g2.
     ebind (calculate_velocity_dispersions env g2) (\<lambda>g3.
     ebind (calculate_angular_quantities env g3) (\<lambda>g4.
       assign_global_plists g4))))"

definition process_group :: "sim \<Rightarrow> group \<Rightarrow> particle list \<Rightarrow> error + group" where
  "process_group env g pdata =
     ebind (assign_particle_data (g\<lparr>u_pdata := Some pdata\<rparr>)) (\<lambda>g1.
     ebind (assign_local_indexes env g1) (\<lambda>g2.
     ebind (valid g2) (\<lambda>v.
     ebind (if v then
              ebind (calculate_total_mass g2) (\<lambda>g3.
              ebind (calculate_center_of_mass_quantities g3) (\<lambda>g4.
              ebind (unbind env g4) (\<lambda>g5.
              ebind (valid g5) (\<lambda>v'.
                if v' then calculate_quantities env g5 else Inr g5))))
            else Inr g2) (\<lambda>g6.
       Inr (cleanup g6)))))"

section \<open>Lazy membership lists\<close>

datatype lname = Glist | Slist | Dmlist

text \<open>\<open>getattr(instance, '_%s' % name)\<close> and \<open>GroupList.__set__\<close>.\<close>

definition backing :: "lname \<Rightarrow> group \<Rightarrow> pyval option" where
  "backing name g = (case name of Glist \<Rightarrow> u_glist g | Slist \<Rightarrow> u_slist g | Dmlist \<Rightarrow> u_dmlist g)"

definition GroupList_set :: "lname \<Rightarrow> group \<Rightarrow> pyval \<Rightarrow> group" where
  "GroupList_set name g v =
     (case name of Glist \<Rightarrow> g\<lparr>u_glist := Some v\<rparr>
                 | Slist \<Rightarrow> g\<lparr>u_slist := Some v\<rparr>
                 | Dmlist \<Rightarrow> g\<lparr>u_dmlist := Some v\<rparr>)"

text \<open>
  Modelled from the spec: \<open>loader.restore_single_list\<close> is not among the sources. The
  spec has the restore capability fetch the persisted list by structure and list name
  and replace the sentinel with the real sequence; \<open>persisted\<close> is what the persistence
  backend holds for this structure.
\<close>

definition restore_single_list :: "(lname \<Rightarrow> int list) \<Rightarrow> group \<Rightarrow> lname \<Rightarrow> group" where
  "restore_single_list persisted g name = GroupList_set name g (PySeq (persisted name))"

text \<open>
  A structure together with the log of the calls made to the loader for it, each entry
  the name of the list asked for.
\<close>

record world =
  inst :: group
  restore_calls :: "lname list"

definition not_loaded :: "pyval option \<Rightarrow> bool" where
  "not_loaded a = (case a of None \<Rightarrow> True | Some v \<Rightarrow> isinstance_int v)"

definition GroupList_get :: "(lname \<Rightarrow> int list) \<Rightarrow> lname \<Rightarrow> world \<Rightarrow> (error + pyval) \<times> world" where
  "GroupList_get persisted name w =
     (let w' = (if not_loaded (backing name (inst w))
                then w\<lparr>inst := restore_single_list persisted (inst w) name,
                       restore_calls := restore_calls w @ [name]\<rparr>
                else w)
      in (attr (backing name (inst w')), w'))"

text \<open>
  Which names are descriptors of the class: \<open>glist\<close> and \<open>slist\<close> on \<open>Group\<close>,
  \<open>dmlist\<close> on \<open>Halo\<close> only. Reading or writing any other name is plain attribute
  access.
\<close>

definition has_descriptor :: "kind \<Rightarrow> lname \<Rightarrow> bool" where
  "has_descriptor k name = (case name of Glist \<Rightarrow> True | Slist \<Rightarrow> True | Dmlist \<Rightarrow> k = Halo)"

definition read_list :: "(lname \<Rightarrow> int list) \<Rightarrow> lname \<Rightarrow> world \<Rightarrow> (error + pyval) \<times> world" where
  "read_list persisted name w =
     (if has_descriptor (obj_type (inst w)) name then GroupList_get persisted name w
      else (attr (backing name (inst w)), w))"

definition write_list :: "lname \<Rightarrow> pyval \<Rightarrow> world \<Rightarrow> world" where
  "write_list name v w = w\<lparr>inst := GroupList_set name (inst w) v\<rparr>"

section \<open>Notions used in the statements\<close>

text \<open>
  One evaluation pass of \<open>_unbind\<close>: its body from the head to the recursive call. The
  flag says whether \<open>_unbind\<close> calls itself on the resulting structure.
\<close>

definition unbind_pass :: "sim \<Rightarrow> group \<Rightarrow> error + (group \<times> bool)" where
  "unbind_pass env g =
     ebind (unbind_energy env (unbind_enter env g)) (\<lambda>energy.
       if length (positive_of energy) > 0 then
         ebind (unbind_loop (rev (positive_of energy)) (unbind_enter env g)) (\<lambda>g2.
         ebind (unbind_reassign env g2) (\<lambda>(g4, v).
           if \<not> v then Inr (g4, False)
           else ebind (unbind_recentre g4) (\<lambda>g6. Inr (g6, True))))
       else Inr (unbind_enter env g, False))"

text \<open>The ledger after the loop has appended the rows at the positions \<open>ps\<close>, in that order.\<close>

definition ledger_after ::
    "(int \<rightharpoonup> int list) \<Rightarrow> particle list \<Rightarrow> nat list \<Rightarrow> (int \<rightharpoonup> int list)" where
  "ledger_after led rows ps =
     (\<lambda>k. map_option
            (\<lambda>l. l @ map (\<lambda>i. pd_indexes (rows ! i)) (filter (\<lambda>i. pd_ptype (rows ! i) = k) ps))
            (led k))"

text \<open>The ledger entry of a species, empty while the ledger or the entry does not exist.\<close>

definition ledger_entry :: "group \<Rightarrow> int \<Rightarrow> int list" where
  "ledger_entry g k =
     (case unbound_indexes g of None \<Rightarrow> []
      | Some led \<Rightarrow> (case led k of None \<Rightarrow> [] | Some l \<Rightarrow> l))"

text \<open>
  A ledger that is present has an entry for each of the three species, as the ledger
  that \<open>_unbind\<close> creates has.
\<close>

definition ledger_ok :: "sim \<Rightarrow> group \<Rightarrow> bool" where
  "ledger_ok env g =
     (case unbound_indexes g of None \<Rightarrow> True
      | Some led \<Rightarrow> led (gas env) \<noteq> None \<and> led (star env) \<noteq> None \<and> led (dm env) \<noteq> None)"

definition known_species :: "sim \<Rightarrow> particle \<Rightarrow> bool" where
  "known_species env p =
     (pd_ptype p = gas env \<or> pd_ptype p = star env \<or> pd_ptype p = dm env)"



text \<open>
  An integer that numpy accepts as an index into an array of length \<open>n\<close>,
  and the element it selects.
\<close>

definition in_range :: "nat \<Rightarrow> int \<Rightarrow> bool" where
  "in_range n i = (- int n \<le> i \<and> i < int n)"

definition np_at :: "'a list \<Rightarrow> int \<Rightarrow> 'a" where
  "np_at xs i = xs ! (if 0 \<le> i then nat i else nat (int (length xs) + i))"

text \<open>
  The counter \<open>unbind_iterations\<close>, zero while the attribute does not
  exist.
\<close>

definition iterations :: "group \<Rightarrow> nat" where
  "iterations g = (case unbind_iterations g of None \<Rightarrow> 0 | Some n \<Rightarrow> n)"

text \<open>
  The structure is as \<open>_assign_particle_data\<close> and
  \<open>_assign_local_indexes\<close> leave it: its particle data is
  \<open>rows\<close> and its local lists and counts are those of \<open>rows\<close>.
\<close>

definition assigned :: "sim \<Rightarrow> group \<Rightarrow> particle list \<Rightarrow> bool" where
  "assigned env g rows =
     (particle_data g = Some rows \<and>
      u_glist g = Some (PySeq (local_where (gas env) rows)) \<and>
      u_slist g = Some (PySeq (local_where (star env) rows)) \<and>
      u_dmlist g = Some (PySeq (local_where (dm env) rows)) \<and>
      ngas g = Some (length (local_where (gas env) rows)) \<and>
      nstar g = Some (length (local_where (star env) rows)) \<and>
      ndm g = Some (length (local_where (dm env) rows)))"

text \<open>
  The state in which \<open>_process_group\<close> calls \<open>_unbind\<close>, and
  in which \<open>_unbind\<close> calls itself: the particle data is the slice of the
  table at \<open>particle_indexes\<close>, every index is in range, every member is
  gas, star or dark matter, the local lists are assigned, and the total mass and the
  centre of mass are present.
\<close>

definition ready :: "sim \<Rightarrow> group \<Rightarrow> bool" where
  "ready env g =
     (case u_pdata g of None \<Rightarrow> False
      | Some pd \<Rightarrow>
          (case particle_indexes g of None \<Rightarrow> False
           | Some idx \<Rightarrow>
               (\<forall>i\<in>set idx. in_range (length pd) i \<and> known_species env (np_at pd i)) \<and>
               assigned env g (map (np_at pd) idx) \<and>
               pos g \<noteq> None \<and> vel g \<noteq> None \<and> masses g ''total'' \<noteq> None \<and>
               ledger_ok env g))"

text \<open>
  The assignments of \<open>_assign_local_indexes\<close> for the particle data
  \<open>rows\<close>.
\<close>

definition with_local_indexes :: "sim \<Rightarrow> group \<Rightarrow> particle list \<Rightarrow> group" where
  "with_local_indexes env g rows =
     g\<lparr>u_glist := Some (PySeq (local_where (gas env) rows)),
       u_slist := Some (PySeq (local_where (star env) rows)),
       u_dmlist := Some (PySeq (local_where (dm env) rows)),
       ngas := Some (length (local_where (gas env) rows)),
       nstar := Some (length (local_where (star env) rows)),
       ndm := Some (length (local_where (dm env) rows))\<rparr>"

text \<open>
  No derived quantity other than the total mass differs between two states: the mass
  breakdown, the radii, temperatures, virial quantities, dispersions and angular
  quantities are the same, present or absent.
\<close>

definition same_derived :: "group \<Rightarrow> group \<Rightarrow> bool" where
  "same_derived g g' =
     ((\<forall>k. k \<noteq> ''total'' \<longrightarrow> masses g' k = masses g k) \<and>
      radii g' = radii g \<and> temperatures g' = temperatures g \<and>
      virial_quantities g' = virial_quantities g \<and>
      velocity_dispersions g' = velocity_dispersions g \<and>
      total_angular_momentum g' = total_angular_momentum g \<and>
      angular_momentum_vector g' = angular_momentum_vector g \<and>
      spin g' = spin g)"

text \<open>
  Every ledger entry of the first state is an initial segment of the entry in the
  second, and the ledger keeps its keys.
\<close>

definition ledger_grows :: "group \<Rightarrow> group \<Rightarrow> bool" where
  "ledger_grows g g' =
     ((\<forall>k. \<exists>l. ledger_entry g' k = ledger_entry g k @ l) \<and>
      (case unbound_indexes g of None \<Rightarrow> True
       | Some led \<Rightarrow> (case unbound_indexes g' of None \<Rightarrow> False | Some led' \<Rightarrow> dom led' = dom led)))"

text \<open>
  The number of indexes in the whole ledger, zero while it does not exist.
\<close>

definition ledger_size :: "group \<Rightarrow> nat" where
  "ledger_size g =
     (case unbound_indexes g of None \<Rightarrow> 0
      | Some led \<Rightarrow> (\<Sum>k\<in>dom led. length (the (led k))))"

text \<open>
  The mass of the rows of one species.
\<close>

definition species_mass :: "int \<Rightarrow> particle list \<Rightarrow> real" where
  "species_mass c rows = sum_list (map pd_mass (filter (\<lambda>p. pd_ptype p = c) rows))"

text \<open>
  Every quantity of the inner branch of \<open>_process_group\<close> is present.
\<close>

definition quantities_done :: "group \<Rightarrow> bool" where
  "quantities_done g =
     (masses g ''dm'' \<noteq> None \<and> masses g ''gas'' \<noteq> None \<and> masses g ''stellar'' \<noteq> None \<and>
      masses g ''baryon'' \<noteq> None \<and> radii g ''virial'' \<noteq> None \<and> radii g ''r200c'' \<noteq> None \<and>
      temperatures g ''virial'' \<noteq> None \<and> virial_quantities g \<noteq> None \<and>
      velocity_dispersions g \<noteq> None \<and> total_angular_momentum g \<noteq> None \<and>
      angular_momentum_vector g \<noteq> None \<and> spin g \<noteq> None)"

text \<open>
  An input of \<open>_process_group\<close>: \<open>particle_indexes\<close> is a list
  of indexes into the table, and every member is gas, star or dark matter.
\<close>

definition well_formed :: "sim \<Rightarrow> group \<Rightarrow> particle list \<Rightarrow> bool" where
  "well_formed env g pdata =
     (case particle_indexes g of None \<Rightarrow> False
      | Some idx \<Rightarrow>
          (\<forall>i\<in>set idx. in_range (length pdata) i \<and> known_species env (np_at pdata i)) \<and>
          ledger_ok env g)"

text \<open>
  The number of particles of the defining species among \<open>rows\<close>: dark
  matter for a halo, stars for a galaxy.
\<close>

definition defining_count :: "sim \<Rightarrow> group \<Rightarrow> particle list \<Rightarrow> nat" where
  "defining_count env g rows =
     (case obj_type g of
        Halo \<Rightarrow> length (filter (\<lambda>p. pd_ptype p = dm env) rows)
      | Galaxy \<Rightarrow> length (filter (\<lambda>p. pd_ptype p = star env) rows))"

text \<open>
  The steps of \<open>_process_group\<close> that lead a valid structure to \<open>_unbind\<close>: the
  particle data, the local lists, the total mass and the centre of mass.
\<close>

definition process_head :: "sim \<Rightarrow> group \<Rightarrow> particle list \<Rightarrow> error + group" where
  "process_head env g pdata =
     ebind (assign_particle_data (g\<lparr>u_pdata := Some pdata\<rparr>)) (\<lambda>g1.
     ebind (assign_local_indexes env g1) (\<lambda>g2.
     ebind (calculate_total_mass g2) (\<lambda>g3.
       calculate_center_of_mass_quantities g3)))"

text \<open>
  The relation between the entries of the mass breakdown as the specification states
  it: the entries other than the total add up to the total.
\<close>

definition breakdown_sums_to_total :: "group \<Rightarrow> bool" where
  "breakdown_sums_to_total g =
     (case (masses g ''dm'', masses g ''gas'', masses g ''stellar'', masses g ''baryon'',
            masses g ''total'') of
        (Some md, Some mg, Some ms, Some mb, Some mt) \<Rightarrow> md + mg + ms + mb = mt
      | _ \<Rightarrow> False)"

section \<open>Example inputs\<close>

text \<open>A simulation context in which every unit is the working unit.\<close>

definition unit_sim :: sim where
  "unit_sim = \<lparr>sim_G = 1, critical_density = 1, conv = (\<lambda>a b. 1), gas = 0, star = 4, dm = 1\<rparr>"

text \<open>
  Four particles on a line, two fast and two slow, small enough to follow by hand.
  \<open>four_ready\<close> is the structure once its particle data, local lists, total mass and
  centre of mass are assigned, and \<open>four_energies\<close> the energies of a pass of \<open>_unbind\<close>
  over it. With three dark-matter particles it is below the threshold: \<open>_process_group\<close>
  abandons it, and a pass of \<open>_unbind\<close>, which does not ask, can still be followed on it.
\<close>

definition four_rows :: "particle list" where
  "four_rows =
     [\<lparr>pd_pos = (1, 0, 0), pd_vel = (3, 0, 0), pd_mass = 1, pd_ptype = 1, pd_indexes = 10\<rparr>,
      \<lparr>pd_pos = (- 1, 0, 0), pd_vel = (- 3, 0, 0), pd_mass = 1, pd_ptype = 0, pd_indexes = 11\<rparr>,
      \<lparr>pd_pos = (2, 0, 0), pd_vel = (0, 0, 0), pd_mass = 1, pd_ptype = 1, pd_indexes = 12\<rparr>,
      \<lparr>pd_pos = (- 2, 0, 0), pd_vel = (0, 0, 0), pd_mass = 1, pd_ptype = 1, pd_indexes = 13\<rparr>]"

definition four_body :: group where
  "four_body = (create_new_group Halo)
     \<lparr>particle_indexes := Some [0, 1, 2, 3], u_pdata := Some four_rows\<rparr>"

definition four_ready :: group where
  "four_ready = four_body
     \<lparr>particle_data := Some four_rows,
      u_glist := Some (PySeq [1]), u_slist := Some (PySeq []), u_dmlist := Some (PySeq [0, 2, 3]),
      ngas := Some 1, nstar := Some 0, ndm := Some 3,
      masses := [''total'' \<mapsto> 4],
      pos := Some (Finite 0, Finite 0, Finite 0), vel := Some (Finite 0, Finite 0, Finite 0)\<rparr>"


definition four_energies :: "npfloat list" where
  "four_energies = [Finite (3 / 2), Finite (3 / 2), Finite (- (3 / 2)), Finite (- (3 / 2))]"

text \<open>
  The four particles after the pass: the two fast ones are gone, and the structure is
  below the threshold.
\<close>

definition four_after :: group where
  "four_after = four_ready
     \<lparr>particle_indexes := Some [2, 3],
      particle_data := Some [four_rows ! 2, four_rows ! 3],
      u_glist := Some (PySeq []), u_slist := Some (PySeq []), u_dmlist := Some (PySeq [0, 1]),
      ngas := Some 0, nstar := Some 0, ndm := Some 2,
      unbound_indexes := Some [0 \<mapsto> [11], 4 \<mapsto> [], 1 \<mapsto> [10]],
      unbind_iterations := Some 1\<rparr>"



text \<open>
  The same with the fast particles dark matter: a halo candidate of 32 dark-matter
  particles, two of them fast. \<open>fringe_ready\<close> is the structure as
  \<open>_unbind\<close> receives it, \<open>fringe_after\<close> as its single pass
  leaves it.
\<close>

definition fringe_pdata :: "particle list" where
  "fringe_pdata =
     [\<lparr>pd_pos = (1, 0, 0), pd_vel = (0, 0, 0), pd_mass = 1, pd_ptype = 1, pd_indexes = 100\<rparr>,
      \<lparr>pd_pos = (- 1, 0, 0), pd_vel = (0, 0, 0), pd_mass = 1, pd_ptype = 1, pd_indexes = 101\<rparr>,
      \<lparr>pd_pos = (2, 0, 0), pd_vel = (6, 0, 0), pd_mass = 1, pd_ptype = 1, pd_indexes = 102\<rparr>,
      \<lparr>pd_pos = (- 2, 0, 0), pd_vel = (- 6, 0, 0), pd_mass = 1, pd_ptype = 1, pd_indexes = 103\<rparr>]"

definition fringe :: group where
  "fringe = (create_new_group Halo)
     \<lparr>particle_indexes := Some (replicate 15 0 @ replicate 15 1 @ [2, 3])\<rparr>"

definition fringe_rows :: "particle list" where
  "fringe_rows = replicate 15 (fringe_pdata ! 0) @ replicate 15 (fringe_pdata ! 1) @
     [fringe_pdata ! 2, fringe_pdata ! 3]"

definition fringe_ready :: group where
  "fringe_ready = fringe
     \<lparr>u_pdata := Some fringe_pdata, particle_data := Some fringe_rows,
      u_glist := Some (PySeq (local_where 0 fringe_rows)),
      u_slist := Some (PySeq (local_where 4 fringe_rows)),
      u_dmlist := Some (PySeq (local_where 1 fringe_rows)),
      ngas := Some (length (local_where 0 fringe_rows)),
      nstar := Some (length (local_where 4 fringe_rows)),
      ndm := Some (length (local_where 1 fringe_rows)),
      masses := [''total'' \<mapsto> 32],
      pos := Some (Finite 0, Finite 0, Finite 0), vel := Some (Finite 0, Finite 0, Finite 0)\<rparr>"

definition fringe_kept :: "particle list" where
  "fringe_kept = replicate 15 (fringe_pdata ! 0) @ replicate 15 (fringe_pdata ! 1)"

definition fringe_after :: group where
  "fringe_after = fringe_ready
     \<lparr>particle_indexes := Some (replicate 15 0 @ replicate 15 1),
      particle_data := Some fringe_kept,
      u_glist := Some (PySeq (local_where 0 fringe_kept)),
      u_slist := Some (PySeq (local_where 4 fringe_kept)),
      u_dmlist := Some (PySeq (local_where 1 fringe_kept)),
      ngas := Some (length (local_where 0 fringe_kept)),
      nstar := Some (length (local_where 4 fringe_kept)),
      ndm := Some (length (local_where 1 fringe_kept)),
      unbound_indexes := Some [0 \<mapsto> [], 4 \<mapsto> [], 1 \<mapsto> [103, 102]],
      unbind_iterations := Some 1\<rparr>"

text \<open>
  A halo candidate of 32 bound dark-matter particles and one gas particle at rest at
  the centre; \<open>mixed_ready\<close> is the structure as \<open>_unbind\<close>
  receives it.
\<close>

definition mixed_pdata :: "particle list" where
  "mixed_pdata =
     [\<lparr>pd_pos = (1, 0, 0), pd_vel = (0, 0, 0), pd_mass = 1, pd_ptype = 1, pd_indexes = 100\<rparr>,
      \<lparr>pd_pos = (- 1, 0, 0), pd_vel = (0, 0, 0), pd_mass = 1, pd_ptype = 1, pd_indexes = 101\<rparr>,
      \<lparr>pd_pos = (0, 0, 0), pd_vel = (0, 0, 0), pd_mass = 1, pd_ptype = 0, pd_indexes = 102\<rparr>]"

definition mixed :: group where
  "mixed = (create_new_group Halo)
     \<lparr>particle_indexes := Some (replicate 16 0 @ replicate 16 1 @ [2])\<rparr>"

definition mixed_rows :: "particle list" where
  "mixed_rows = replicate 16 (mixed_pdata ! 0) @ replicate 16 (mixed_pdata ! 1) @ [mixed_pdata ! 2]"

definition mixed_ready :: group where
  "mixed_ready = mixed
     \<lparr>u_pdata := Some mixed_pdata, particle_data := Some mixed_rows,
      u_glist := Some (PySeq (local_where 0 mixed_rows)),
      u_slist := Some (PySeq (local_where 4 mixed_rows)),
      u_dmlist := Some (PySeq (local_where 1 mixed_rows)),
      ngas := Some (length (local_where 0 mixed_rows)),
      nstar := Some (length (local_where 4 mixed_rows)),
      ndm := Some (length (local_where 1 mixed_rows)),
      masses := [''total'' \<mapsto> 33],
      pos := Some (Finite 0, Finite 0, Finite 0), vel := Some (Finite 0, Finite 0, Finite 0)\<rparr>"

text \<open>
  A galaxy and a halo fresh from the constructor, no list assigned and no call to the
  loader made, and what the persistence backend holds for each list.
\<close>

definition galaxy_world :: world where
  "galaxy_world = \<lparr>inst = create_new_group Galaxy, restore_calls = []\<rparr>"

definition halo_world :: world where
  "halo_world = \<lparr>inst = create_new_group Halo, restore_calls = []\<rparr>"

definition stored_lists :: "lname \<Rightarrow> int list" where
  "stored_lists name = (case name of Glist \<Rightarrow> [3, 5] | Slist \<Rightarrow> [] | Dmlist \<Rightarrow> [7, 8])"

section \<open>Auxiliary facts\<close>

lemma nths_agree:
  "(\<And>j. j < length xs \<Longrightarrow> (j \<in> A) = (j \<in> B)) \<Longrightarrow> nths xs A = nths xs B"
  unfolding nths_def
  by (rule arg_cong [where f = "map fst"], rule filter_cong) (auto simp: set_zip)

lemma nths_del_mid:
  assumes "\<forall>j\<in>R. j < length ys"
  shows "nths (ys @ zs) (- R) = nths (ys @ x # zs) (- insert (length ys) R)"
proof -
  have a: "nths ys (- R) = nths ys (- insert (length ys) R)"
    by (rule nths_agree) auto
  have b: "nths zs {j. j + length ys \<in> - R} = zs"
    by (rule nths_all) (use assms in auto)
  have c: "nths zs {j. Suc j \<in> {j. j + length ys \<in> - insert (length ys) R}} = zs"
    by (rule nths_all) (use assms in auto)
  have d: "0 \<notin> {j. j + length ys \<in> - insert (length ys) R}"
    by simp
  show ?thesis
    unfolding nths_append nths_Cons a b c using d by simp
qed

lemma nths_del:
  assumes "i < length xs" "\<forall>j\<in>set rest. j < i"
  shows "nths (take i xs @ drop (Suc i) xs) (- set rest) = nths xs (- set (i # rest))"
proof -
  have "nths (take i xs @ drop (Suc i) xs) (- set rest)
      = nths (take i xs @ xs ! i # drop (Suc i) xs) (- insert (length (take i xs)) (set rest))"
    by (rule nths_del_mid) (use assms in simp)
  also have "take i xs @ xs ! i # drop (Suc i) xs = xs"
    using assms(1) by (rule id_take_nth_drop [symmetric])
  also have "length (take i xs) = i" using assms(1) by simp
  finally show ?thesis by simp
qed

lemma ledger_after_Nil: "ledger_after led rows [] = led"
  by (rule ext) (simp add: ledger_after_def option.map_ident)

lemma ledger_after_Cons:
  assumes "led (pd_ptype (rows ! i)) = Some l"
  shows "ledger_after (led(pd_ptype (rows ! i) \<mapsto> l @ [pd_indexes (rows ! i)])) rows rest
       = ledger_after led rows (i # rest)"
  using assms by (auto simp: ledger_after_def fun_eq_iff)

lemma unbind_loop_result:
  assumes "particle_data g = Some rows" "particle_indexes g = Some idx"
    "unbound_indexes g = Some led" "sorted_wrt (>) ps"
    "\<forall>i\<in>set ps. i < length rows \<and> i < length idx \<and> pd_ptype (rows ! i) \<in> dom led"
  shows "unbind_loop ps g =
           Inr (g\<lparr>unbound_indexes := Some (ledger_after led rows ps),
                  particle_indexes := Some (nths idx (- set ps))\<rparr>)"
  using assms
proof (induction ps arbitrary: g idx led)
  case Nil
  have "g\<lparr>unbound_indexes := Some led, particle_indexes := Some idx\<rparr> = g"
    using Nil.prems by simp
  moreover have "nths idx (- set []) = idx"
    by (simp add: nths_all)
  ultimately show ?case by (simp add: ledger_after_Nil)
next
  case (Cons i rest)
  from Cons.prems obtain l where l: "led (pd_ptype (rows ! i)) = Some l"
    by auto
  let ?led = "led(pd_ptype (rows ! i) \<mapsto> l @ [pd_indexes (rows ! i)])"
  let ?idx = "take i idx @ drop (Suc i) idx"
  let ?g = "g\<lparr>unbound_indexes := Some ?led, particle_indexes := Some ?idx\<rparr>"
  have i: "i < length rows" "i < length idx" and rest: "\<forall>j\<in>set rest. j < i"
    using Cons.prems by auto
  have step: "unbind_loop (i # rest) g = unbind_loop rest ?g"
    using Cons.prems(1-3) l i by (simp add: ebind_def attr_def item_def del_at_def)
  have "unbind_loop rest ?g =
          Inr (?g\<lparr>unbound_indexes := Some (ledger_after ?led rows rest),
                   particle_indexes := Some (nths ?idx (- set rest))\<rparr>)"
  proof (rule Cons.IH [where g = ?g and idx = ?idx and led = ?led])
    show "\<forall>j\<in>set rest. j < length rows \<and> j < length ?idx \<and> pd_ptype (rows ! j) \<in> dom ?led"
      using Cons.prems(5) rest i by auto
    show "particle_data ?g = Some rows" using Cons.prems(1) by simp
    show "particle_indexes ?g = Some ?idx" by simp
    show "unbound_indexes ?g = Some ?led" by simp
    show "sorted_wrt (>) rest" using Cons.prems(4) by simp
  qed
  with step show ?case
    by (simp add: ledger_after_Cons [of led rows i l rest, OF l] nths_del [OF i(2) rest])
qed

lemma set_positive_of: "set (positive_of e) = {i. i < length e \<and> np_gt0 (e ! i)}"
  by (auto simp: positive_of_def np_where_def)

lemma sorted_positive_of: "sorted_wrt (>) (rev (positive_of e))"
  by (simp add: positive_of_def np_where_def sorted_wrt_rev sorted_wrt_filter)







lemma unbind_enter_fields [simp]:
  "particle_data (unbind_enter env g) = particle_data g"
  "particle_indexes (unbind_enter env g) = particle_indexes g"
  "pos (unbind_enter env g) = pos g"
  "vel (unbind_enter env g) = vel g"
  "masses (unbind_enter env g) = masses g"
  "u_pdata (unbind_enter env g) = u_pdata g"
  "obj_type (unbind_enter env g) = obj_type g"
  by (simp_all add: unbind_enter_def)

lemma unbind_loop_positive:
  assumes pd: "particle_data g = Some rows" and pi: "particle_indexes g = Some idx"
    and len: "length idx = length rows" "length energy = length rows"
    and led: "unbound_indexes g = Some led"
    and keys: "\<forall>i<length rows. np_gt0 (energy ! i) \<longrightarrow> led (pd_ptype (rows ! i)) \<noteq> None"
  shows "unbind_loop (rev (positive_of energy)) g =
           Inr (g\<lparr>unbound_indexes := Some (ledger_after led rows (rev (positive_of energy))),
                  particle_indexes := Some (nths idx {i. \<not> np_gt0 (energy ! i)})\<rparr>)"
proof -
  have "nths idx (- set (rev (positive_of energy))) = nths idx {i. \<not> np_gt0 (energy ! i)}"
    by (rule nths_agree) (use len in \<open>auto simp: set_positive_of\<close>)
  moreover have "\<forall>i\<in>set (rev (positive_of energy)).
      i < length rows \<and> i < length idx \<and> pd_ptype (rows ! i) \<in> dom led"
    using len keys by (auto simp: set_positive_of)
  ultimately show ?thesis
    using unbind_loop_result [OF pd pi led sorted_positive_of, of energy] by simp
qed

subsection \<open>The example of four particles\<close>

lemma upt4: "[0..<4] = [0, 1, 2, 3]"
  by (simp add: upt_rec)

lemma four_head:
  "ebind (assign_particle_data four_body) (\<lambda>g1.
   ebind (assign_local_indexes unit_sim g1) (\<lambda>g2.
   ebind (calculate_total_mass g2) (\<lambda>g3. calculate_center_of_mass_quantities g3))) = Inr four_ready"
  by (simp add: assign_particle_data_def four_body_def create_new_group_def attr_def ebind_def
      np_index_def four_rows_def assign_local_indexes_def local_where_def np_where_def upt4
      unit_sim_def calculate_total_mass_def calculate_center_of_mass_quantities_def item_def
      get_center_of_mass_quantity_def four_ready_def Let_def)

lemma four_energy:
  "unbind_energy unit_sim (unbind_enter unit_sim four_ready) = Inr four_energies"
  by (simp add: unbind_energy_def four_ready_def four_body_def create_new_group_def attr_def
      ebind_def item_def unbind_enter_def four_rows_def particle_energy_def to_vec_def yt_to_def
      unit_sim_def sep_sq_def scale_vec_def np_square_def np_sub_def Let_def four_energies_def)

lemma four_energies_positive: "rev (positive_of four_energies) = [1, 0]"
  by (simp add: positive_of_def np_where_def upt4 four_energies_def)


subsection \<open>Indexing, readiness and the passes of unbinding\<close>

lemma np_take_map:
  "\<forall>i\<in>set js. in_range (length xs) i \<Longrightarrow> np_take xs js = Inr (map (np_at xs) js)"
  by (induction js) (auto simp: ebind_def np_index_def in_range_def np_at_def)

lemma np_take_Inr_D:
  "np_take xs js = Inr ys \<Longrightarrow> (\<forall>i\<in>set js. in_range (length xs) i) \<and> ys = map (np_at xs) js"
  by (induction js arbitrary: ys)
     (auto simp: ebind_def np_index_def in_range_def np_at_def split: sum.splits if_splits)

lemma map_nth_filter_upt:
  "map (nth xs) (filter (\<lambda>i. P (xs ! i)) [0..<length xs]) = filter P xs"
proof (induction xs rule: rev_induct)
  case Nil
  show ?case by simp
next
  case (snoc x xs)
  have "filter (\<lambda>i. P ((xs @ [x]) ! i)) [0..<length xs] = filter (\<lambda>i. P (xs ! i)) [0..<length xs]"
    by (rule filter_cong) (auto simp: nth_append)
  moreover have "map (nth (xs @ [x])) (filter (\<lambda>i. P (xs ! i)) [0..<length xs])
      = map (nth xs) (filter (\<lambda>i. P (xs ! i)) [0..<length xs])"
    by (rule map_cong) (auto simp: nth_append)
  ultimately show ?case using snoc by simp
qed

lemma np_at_int: "np_at xs (int i) = xs ! i"
  by (simp add: np_at_def)

lemma local_where_in_range: "\<forall>i\<in>set (local_where c rows). in_range (length rows) i"
  by (auto simp: local_where_def np_where_def in_range_def)

lemma np_take_local_where:
  "np_take (map f rows) (local_where c rows) = Inr (map f (filter (\<lambda>p. pd_ptype p = c) rows))"
proof -
  have "np_take (map f rows) (local_where c rows)
      = Inr (map (np_at (map f rows)) (local_where c rows))"
    by (rule np_take_map) (use local_where_in_range [of c rows] in simp)
  also have "map (np_at (map f rows)) (local_where c rows)
      = map f (map (nth rows) (filter (\<lambda>i. pd_ptype (rows ! i) = c) [0..<length rows]))"
    by (simp add: local_where_def np_where_def np_at_int comp_def)
  also have "map (nth rows) (filter (\<lambda>i. pd_ptype (rows ! i) = c) [0..<length rows])
      = filter (\<lambda>p. pd_ptype p = c) rows"
    by (rule map_nth_filter_upt [where P = "\<lambda>p. pd_ptype p = c"])
  finally show ?thesis .
qed

lemma readyE:
  assumes "ready env g"
  obtains pd idx c cv mtot where
    "u_pdata g = Some pd" "particle_indexes g = Some idx"
    "\<forall>i\<in>set idx. in_range (length pd) i" "\<forall>i\<in>set idx. known_species env (np_at pd i)"
    "assigned env g (map (np_at pd) idx)"
    "pos g = Some c" "vel g = Some cv" "masses g ''total'' = Some mtot" "ledger_ok env g"
  using assms by (auto simp: ready_def split: option.splits)

lemma assign_particle_data_ok:
  assumes "u_pdata g = Some pd" "particle_indexes g = Some idx"
    "\<forall>i\<in>set idx. in_range (length pd) i"
  shows "assign_particle_data g = Inr (g\<lparr>particle_data := Some (map (np_at pd) idx)\<rparr>)"
  using assms by (simp add: assign_particle_data_def ebind_def attr_def np_take_map)

lemma assign_local_indexes_ok:
  assumes "particle_data g = Some rows"
  shows "assign_local_indexes env g = Inr (with_local_indexes env g rows)"
  using assms by (simp add: assign_local_indexes_def ebind_def attr_def Let_def with_local_indexes_def)

lemma assigned_with_local_indexes:
  "particle_data g = Some rows \<Longrightarrow> assigned env (with_local_indexes env g rows) rows"
  by (simp add: assigned_def with_local_indexes_def)

lemma valid_assigned:
  assumes "assigned env g rows"
  shows "valid g = Inr (\<not> (case obj_type g of
            Halo \<Rightarrow> length (local_where (dm env) rows) < 32
          | Galaxy \<Rightarrow> length (local_where (star env) rows) < 32))"
  using assms
  by (simp add: valid_def assigned_def ebind_def attr_def MINIMUM_DM_PER_HALO_def
      MINIMUM_STARS_PER_GALAXY_def split: kind.splits)


lemma readyI:
  assumes "u_pdata g = Some pd" "particle_indexes g = Some idx"
    "\<forall>i\<in>set idx. in_range (length pd) i" "\<forall>i\<in>set idx. known_species env (np_at pd i)"
    "assigned env g (map (np_at pd) idx)"
    "pos g \<noteq> None" "vel g \<noteq> None" "masses g ''total'' \<noteq> None" "ledger_ok env g"
  shows "ready env g"
  using assms by (simp add: ready_def)

lemma with_local_indexes_fields [simp]:
  "u_pdata (with_local_indexes env g rows) = u_pdata g"
  "particle_indexes (with_local_indexes env g rows) = particle_indexes g"
  "particle_data (with_local_indexes env g rows) = particle_data g"
  "pos (with_local_indexes env g rows) = pos g"
  "vel (with_local_indexes env g rows) = vel g"
  "masses (with_local_indexes env g rows) = masses g"
  "unbound_indexes (with_local_indexes env g rows) = unbound_indexes g"
  "unbind_iterations (with_local_indexes env g rows) = unbind_iterations g"
  "obj_type (with_local_indexes env g rows) = obj_type g"
  by (simp_all add: with_local_indexes_def)

lemma assigned_frame:
  assumes "assigned env g rows" "particle_data g' = particle_data g" "u_glist g' = u_glist g"
    "u_slist g' = u_slist g" "u_dmlist g' = u_dmlist g" "ngas g' = ngas g" "nstar g' = nstar g"
    "ndm g' = ndm g"
  shows "assigned env g' rows"
  using assms by (simp add: assigned_def)

lemma valid_frame:
  "obj_type g' = obj_type g \<Longrightarrow> nstar g' = nstar g \<Longrightarrow> ndm g' = ndm g \<Longrightarrow> valid g' = valid g"
  by (cases "obj_type g") (simp_all add: valid_def)

lemma unbind_pass_ready:
  assumes r: "ready env g"
  shows "\<exists>g' again. unbind_pass env g = Inr (g', again) \<and> ready env g' \<and>
     obj_type g' = obj_type g \<and> iterations g' = Suc (iterations g) \<and>
     (if again then plen g' < plen g \<and> valid g' = Inr True
      else (valid g' = Inr False \<and> plen g' < plen g) \<or>
           (valid g' = valid g \<and> plen g' = plen g \<and>
            (\<exists>e. unbind_energy env g' = Inr e \<and> positive_of e = [])))"
proof -
  from r obtain pd idx c cv mtot where
    pd: "u_pdata g = Some pd" and pi: "particle_indexes g = Some idx" and
    rng: "\<forall>i\<in>set idx. in_range (length pd) i" and
    kn: "\<forall>i\<in>set idx. known_species env (np_at pd i)" and
    asg: "assigned env g (map (np_at pd) idx)" and
    c: "pos g = Some c" and cv: "vel g = Some cv" and mt: "masses g ''total'' = Some mtot" and
    lo: "ledger_ok env g"
    by (rule readyE)
  define rows where "rows = map (np_at pd) idx"
  define g1 where "g1 = unbind_enter env g"
  define energy where "energy = map (particle_energy env (to_vec env Length Kpc c)
      (to_vec env Velocity Kpc_s cv) mtot) rows"
  define ps where "ps = rev (positive_of energy)"
  have pdat: "particle_data g = Some rows"
    using asg by (simp add: assigned_def rows_def)
  have e: "unbind_energy env g1 = Inr energy"
    using pdat c cv mt by (simp add: g1_def unbind_energy_def ebind_def attr_def item_def energy_def)
  have lo1: "ledger_ok env g1"
    using lo by (auto simp: g1_def ledger_ok_def unbind_enter_def fresh_ledger_def split: option.splits)
  have it1: "iterations g1 = Suc (iterations g)"
    by (simp add: g1_def iterations_def unbind_enter_def)
  have asg1: "assigned env g1 rows"
    using asg by (simp add: assigned_def g1_def unbind_enter_def rows_def)
  have r1: "ready env g1"
    using pd pi rng kn asg1 c cv mt lo1 by (intro readyI [where pd = pd and idx = idx]) (simp_all add: g1_def rows_def)
  have v1: "valid g1 = valid g"
    by (rule valid_frame) (simp_all add: g1_def unbind_enter_def)
  have pl1: "plen g1 = plen g"
    by (simp add: g1_def unbind_enter_plen)
  show ?thesis
  proof (cases "positive_of energy = []")
    case True
    then have "unbind_pass env g = Inr (g1, False)"
      using e by (simp add: unbind_pass_def ebind_def g1_def)
    with r1 it1 v1 pl1 e True show ?thesis
      by (intro exI [of _ g1] exI [of _ False]) (simp add: g1_def)
  next
    case False
    obtain led where led: "unbound_indexes g1 = Some led"
      by (simp add: g1_def unbind_enter_def)
    have ledk: "led k \<noteq> None" if "k = gas env \<or> k = star env \<or> k = dm env" for k
      using lo1 led that by (auto simp: ledger_ok_def)
    have keys: "\<forall>i<length rows. np_gt0 (energy ! i) \<longrightarrow> led (pd_ptype (rows ! i)) \<noteq> None"
      using kn ledk by (auto simp: rows_def known_species_def)
    define idx' where "idx' = nths idx {i. \<not> np_gt0 (energy ! i)}"
    define rows' where "rows' = map (np_at pd) idx'"
    define g2 where "g2 = g1\<lparr>unbound_indexes := Some (ledger_after led rows ps),
        particle_indexes := Some idx'\<rparr>"
    define g4 where "g4 = with_local_indexes env (g2\<lparr>particle_data := Some rows'\<rparr>) rows'"
    have sub: "set idx' \<subseteq> set idx"
      by (simp add: idx'_def set_nths_subset)
    have loop: "unbind_loop ps g1 = Inr g2"
      unfolding ps_def g2_def idx'_def
      by (rule unbind_loop_positive [OF _ _ _ _ led keys])
         (simp_all add: g1_def pdat pi rows_def energy_def)
    have a3: "assign_particle_data g2 = Inr (g2\<lparr>particle_data := Some rows'\<rparr>)"
      unfolding rows'_def
      by (rule assign_particle_data_ok) (use sub rng pd in \<open>auto simp: g2_def g1_def\<close>)
    have a4: "assign_local_indexes env (g2\<lparr>particle_data := Some rows'\<rparr>) = Inr g4"
      unfolding g4_def by (rule assign_local_indexes_ok) simp
    have asg4: "assigned env g4 rows'"
      unfolding g4_def by (rule assigned_with_local_indexes) simp
    obtain v where v: "valid g4 = Inr v"
      using valid_assigned [OF asg4] by blast
    have re: "unbind_reassign env g2 = Inr (g4, v)"
      by (simp add: unbind_reassign_def a3 a4 v ebind_def)
    have "plen g2 + length ps = plen g1"
      by (rule unbind_loop_plen [OF loop])
    moreover have "plen g4 = plen g2"
      by (simp add: g4_def plen_def)
    moreover have "0 < length ps"
      using False by (simp add: ps_def)
    ultimately have pl4: "plen g4 < plen g"
      using pl1 by linarith
    have lo4: "ledger_ok env g4"
      using ledk by (simp add: g4_def g2_def ledger_ok_def ledger_after_def)
    have r4: "ready env g4"
    proof (rule readyI [where pd = pd and idx = idx'])
      show "assigned env g4 (map (np_at pd) idx')"
        using asg4 by (simp add: rows'_def)
    qed (use sub rng kn pd c cv mt lo4 in \<open>auto simp: g4_def g2_def g1_def\<close>)
    have ot4: "obj_type g4 = obj_type g"
      by (simp add: g4_def g2_def g1_def)
    have it4: "iterations g4 = Suc (iterations g)"
      using it1 by (simp add: g4_def g2_def iterations_def)
    show ?thesis
    proof (cases v)
      case False
      have "unbind_pass env g = Inr (g4, False)"
        using e \<open>positive_of energy \<noteq> []\<close> loop re False
        by (simp add: unbind_pass_def ebind_def g1_def [symmetric] ps_def [symmetric])
      with r4 ot4 it4 pl4 v False show ?thesis
        by (intro exI [of _ g4] exI [of _ False]) simp
    next
      case True
      define g5 where "g5 = g4\<lparr>masses := (masses g4)(''total'' \<mapsto> sum_list (map pd_mass rows'))\<rparr>"
      define g6 where "g6 = g5\<lparr>pos := Some (get_center_of_mass_quantity pd_pos rows'
            (sum_list (map pd_mass rows'))),
          vel := Some (get_center_of_mass_quantity pd_vel rows' (sum_list (map pd_mass rows')))\<rparr>"
      have pd4: "particle_data g4 = Some rows'"
        using asg4 by (simp add: assigned_def)
      have rc: "unbind_recentre g4 = Inr g6"
        using pd4
        by (simp add: unbind_recentre_def calculate_total_mass_def
            calculate_center_of_mass_quantities_def ebind_def attr_def item_def g5_def g6_def)
      have "unbind_pass env g = Inr (g6, True)"
        using e \<open>positive_of energy \<noteq> []\<close> loop re True rc
        by (simp add: unbind_pass_def ebind_def g1_def [symmetric] ps_def [symmetric])
      moreover have "ready env g6"
      proof (rule readyI [where pd = pd and idx = idx'])
        show "assigned env g6 (map (np_at pd) idx')"
          by (rule assigned_frame [OF asg4 [unfolded rows'_def]]) (simp_all add: g6_def g5_def)
        show "ledger_ok env g6"
          using lo4 by (simp add: ledger_ok_def g6_def g5_def)
      qed (use sub rng kn pd in \<open>auto simp: g6_def g5_def g4_def g2_def g1_def\<close>)
      moreover have "valid g6 = Inr True"
        using v True valid_frame [of g6 g4] by (simp add: g6_def g5_def)
      moreover have "plen g6 < plen g" "obj_type g6 = obj_type g" "iterations g6 = Suc (iterations g)"
        using pl4 ot4 it4 by (simp_all add: g6_def g5_def plen_def iterations_def)
      ultimately show ?thesis
        by (intro exI [of _ g6] exI [of _ True]) simp
    qed
  qed
qed

lemma unbind_unfold:
  "unbind env g =
     (if unbind_gated g then Inr g
      else ebind (unbind_pass env g) (\<lambda>(g', again). if again then unbind env g' else Inr g'))"
  by (subst unbind.simps)
     (auto simp: unbind_pass_def ebind_def split: sum.splits prod.splits)


lemma unbind_ready:
  assumes "ready env g" "valid g = Inr True"
  shows "\<exists>g'. unbind env g = Inr g' \<and> ready env g' \<and> obj_type g' = obj_type g \<and>
     plen g' \<le> plen g \<and>
     iterations g' + plen g' \<le> iterations g + plen g + (if valid g' = Inr True then 1 else 0) \<and>
     (\<not> unbind_gated g \<longrightarrow> iterations g < iterations g' \<and>
        (valid g' = Inr False \<or> (\<exists>e. unbind_energy env g' = Inr e \<and> positive_of e = [])))"
  using assms
proof (induction "plen g" arbitrary: g rule: less_induct)
  case less
  show ?case
  proof (cases "unbind_gated g")
    case True
    then have "unbind env g = Inr g"
      by (simp add: unbind_unfold)
    with less.prems True show ?thesis by simp
  next
    case False
    from unbind_pass_ready [OF less.prems(1)] obtain g1 again where
      p: "unbind_pass env g = Inr (g1, again)" and r1: "ready env g1" and
      ot: "obj_type g1 = obj_type g" and it: "iterations g1 = Suc (iterations g)" and
      c: "if again then plen g1 < plen g \<and> valid g1 = Inr True
          else (valid g1 = Inr False \<and> plen g1 < plen g) \<or>
               (valid g1 = valid g \<and> plen g1 = plen g \<and>
                (\<exists>e. unbind_energy env g1 = Inr e \<and> positive_of e = []))"
      by blast
    show ?thesis
    proof (cases again)
      case True
      with c have lt: "plen g1 < plen g" and v1: "valid g1 = Inr True"
        by simp_all
      have u: "unbind env g = unbind env g1"
        using False p True by (subst unbind_unfold) (simp add: ebind_def)
      have g1g: "unbind_gated g1 = unbind_gated g"
        using ot by (simp add: unbind_gated_def)
      from less.hyps [OF lt r1 v1] obtain g' where
        "unbind env g1 = Inr g'" "ready env g'" "obj_type g' = obj_type g1" "plen g' \<le> plen g1"
        "iterations g' + plen g' \<le> iterations g1 + plen g1 + (if valid g' = Inr True then 1 else 0)"
        "\<not> unbind_gated g1 \<longrightarrow> iterations g1 < iterations g' \<and>
          (valid g' = Inr False \<or> (\<exists>e. unbind_energy env g' = Inr e \<and> positive_of e = []))"
        by blast
      with u ot it lt g1g False show ?thesis
        by (intro exI [of _ g']) auto
    next
      case False
      have u: "unbind env g = Inr g1"
        using \<open>\<not> unbind_gated g\<close> p False by (subst unbind_unfold) (simp add: ebind_def)
      from c False less.prems(2) have
        "(valid g1 = Inr False \<and> plen g1 < plen g) \<or>
         (valid g1 = Inr True \<and> plen g1 = plen g \<and>
          (\<exists>e. unbind_energy env g1 = Inr e \<and> positive_of e = []))"
        by auto
      with u r1 ot it show ?thesis
        by (intro exI [of _ g1]) auto
    qed
  qed
qed

lemma unbind_pass_cases:
  assumes "unbind_pass env g = Inr (g', again)"
  obtains (none) energy where
      "unbind_energy env (unbind_enter env g) = Inr energy" "positive_of energy = []"
      "g' = unbind_enter env g" "\<not> again"
  | (some) energy g2 g4 v where
      "unbind_energy env (unbind_enter env g) = Inr energy" "positive_of energy \<noteq> []"
      "unbind_loop (rev (positive_of energy)) (unbind_enter env g) = Inr g2"
      "unbind_reassign env g2 = Inr (g4, v)"
      "if v then unbind_recentre g4 = Inr g' \<and> again else g' = g4 \<and> \<not> again"
  using assms
  by (auto simp: unbind_pass_def ebind_def split: sum.splits if_splits prod.splits)

lemma same_derived_refl: "same_derived g g"
  by (simp add: same_derived_def)

lemma same_derived_trans: "same_derived a b \<Longrightarrow> same_derived b c \<Longrightarrow> same_derived a c"
  by (simp add: same_derived_def)

lemma ledger_grows_refl: "ledger_grows g g"
  by (simp add: ledger_grows_def split: option.splits)

lemma ledger_grows_trans:
  assumes ab: "ledger_grows a b" and bc: "ledger_grows b c"
  shows "ledger_grows a c"
proof -
  have "\<exists>l. ledger_entry c k = ledger_entry a k @ l" for k
  proof -
    from ab obtain l1 where "ledger_entry b k = ledger_entry a k @ l1"
      by (auto simp: ledger_grows_def)
    moreover from bc obtain l2 where "ledger_entry c k = ledger_entry b k @ l2"
      by (auto simp: ledger_grows_def)
    ultimately have "ledger_entry c k = ledger_entry a k @ (l1 @ l2)" by simp
    then show ?thesis ..
  qed
  moreover have "case unbound_indexes a of None \<Rightarrow> True
       | Some led \<Rightarrow> (case unbound_indexes c of None \<Rightarrow> False | Some led' \<Rightarrow> dom led' = dom led)"
    using ab bc by (auto simp: ledger_grows_def split: option.splits)
  ultimately show ?thesis
    by (simp add: ledger_grows_def)
qed

lemma unbind_loop_same_derived: "unbind_loop ps g = Inr g' \<Longrightarrow> same_derived g g'"
proof (induction ps arbitrary: g)
  case Nil
  then show ?case by (simp add: same_derived_refl)
next
  case (Cons i rest)
  from unbind_loop_Cons_Inr [OF Cons.prems] obtain led rows l idx' where
    "unbind_loop rest
         (g\<lparr>unbound_indexes :=
              Some (led(pd_ptype (rows ! i) \<mapsto> l @ [pd_indexes (rows ! i)])),
            particle_indexes := Some idx'\<rparr>) = Inr g'" "particle_data g = Some rows"
    by auto
  from Cons.IH [OF this(1)] show ?case
    by (simp add: same_derived_def)
qed

lemma unbind_loop_ledger_grows: "unbind_loop ps g = Inr g' \<Longrightarrow> ledger_grows g g'"
proof (induction ps arbitrary: g)
  case Nil
  then show ?case by (simp add: ledger_grows_refl)
next
  case (Cons i rest)
  from unbind_loop_Cons_Inr [OF Cons.prems] obtain led rows l idx' where
    r: "unbind_loop rest
         (g\<lparr>unbound_indexes :=
              Some (led(pd_ptype (rows ! i) \<mapsto> l @ [pd_indexes (rows ! i)])),
            particle_indexes := Some idx'\<rparr>) = Inr g'" and "particle_data g = Some rows"
    and led: "unbound_indexes g = Some led" "led (pd_ptype (rows ! i)) = Some l"
    by auto
  have "ledger_grows g (g\<lparr>unbound_indexes :=
              Some (led(pd_ptype (rows ! i) \<mapsto> l @ [pd_indexes (rows ! i)])),
            particle_indexes := Some idx'\<rparr>)"
    using led by (auto simp: ledger_grows_def ledger_entry_def)
  with Cons.IH [OF r] show ?case
    by (rule ledger_grows_trans [rotated])
qed

lemma unbind_enter_ledger_grows: "ledger_grows g (unbind_enter env g)"
  by (auto simp: ledger_grows_def unbind_enter_def ledger_entry_def split: option.splits)

lemma unbind_enter_same_derived: "same_derived g (unbind_enter env g)"
  by (simp add: same_derived_def unbind_enter_def)

lemma unbind_reassign_frame:
  assumes "unbind_reassign env g = Inr (g', v)"
  shows "same_derived g g' \<and> unbound_indexes g' = unbound_indexes g"
  using assms
  by (auto simp: unbind_reassign_def assign_particle_data_def assign_local_indexes_def ebind_def
      attr_def same_derived_def Let_def split: sum.splits option.splits)

lemma unbind_recentre_frame:
  assumes "unbind_recentre g = Inr g'"
  shows "same_derived g g' \<and> unbound_indexes g' = unbound_indexes g"
  using assms
  by (auto simp: unbind_recentre_def calculate_total_mass_def
      calculate_center_of_mass_quantities_def ebind_def attr_def item_def same_derived_def
      split: sum.splits option.splits)

lemma ledger_grows_same:
  "unbound_indexes g' = unbound_indexes g \<Longrightarrow> ledger_grows g g'"
  by (simp add: ledger_grows_def ledger_entry_def split: option.splits)

lemma unbind_pass_step:
  assumes "unbind_pass env g = Inr (g', again)"
  shows "plen g' \<le> plen g \<and> (again \<longrightarrow> plen g' < plen g) \<and> same_derived g g' \<and> ledger_grows g g'"
  using assms
proof (cases rule: unbind_pass_cases)
  case (none energy)
  then show ?thesis
    by (simp add: unbind_enter_plen unbind_enter_same_derived unbind_enter_ledger_grows)
next
  case (some energy g2 g4 v)
  let ?g1 = "unbind_enter env g"
  have p2: "plen g2 + length (rev (positive_of energy)) = plen ?g1"
    by (rule unbind_loop_plen [OF some(3)])
  have p4: "plen g4 = plen g2"
    by (rule unbind_reassign_plen [OF some(4)])
  have d: "same_derived g g4"
  proof -
    have "same_derived g ?g1" by (rule unbind_enter_same_derived)
    also have "same_derived ?g1 g2"
      by (rule unbind_loop_same_derived [OF some(3)])
    also (same_derived_trans) have "same_derived g2 g4"
      using unbind_reassign_frame [OF some(4)] by simp
    finally (same_derived_trans) show ?thesis .
  qed
  have l: "ledger_grows g g4"
  proof -
    have "ledger_grows g ?g1" by (rule unbind_enter_ledger_grows)
    also have "ledger_grows ?g1 g2"
      by (rule unbind_loop_ledger_grows [OF some(3)])
    also (ledger_grows_trans) have "ledger_grows g2 g4"
      using unbind_reassign_frame [OF some(4)] by (simp add: ledger_grows_same)
    finally (ledger_grows_trans) show ?thesis .
  qed
  have "0 < length (rev (positive_of energy))"
    using some(2) by simp
  moreover have "plen ?g1 = plen g"
    by (simp add: unbind_enter_plen)
  ultimately have lt: "plen g4 < plen g"
    using p2 p4 by linarith
  show ?thesis
  proof (cases v)
    case True
    with some(5) have rc: "unbind_recentre g4 = Inr g'" and again by simp_all
    have "same_derived g g'"
      using d unbind_recentre_frame [OF rc] by (blast intro: same_derived_trans)
    moreover have "ledger_grows g4 g'"
      using unbind_recentre_frame [OF rc] by (simp add: ledger_grows_same)
    with l have "ledger_grows g g'"
      by (rule ledger_grows_trans)
    moreover have "plen g' < plen g"
      using unbind_recentre_plen [OF rc] lt by simp
    ultimately show ?thesis by simp
  next
    case False
    with some(5) d l lt show ?thesis by simp
  qed
qed

lemma unbind_preserves:
  assumes rf: "\<And>g. R g g" and tr: "\<And>a b c. R a b \<Longrightarrow> R b c \<Longrightarrow> R a c"
    and st: "\<And>g g' again. unbind_pass env g = Inr (g', again) \<Longrightarrow> R g g'"
    and u: "unbind env g = Inr g'"
  shows "R g g'"
  using u
proof (induction "plen g" arbitrary: g rule: less_induct)
  case less
  show ?case
  proof (cases "unbind_gated g")
    case True
    with less.prems have "g' = g" by (simp add: unbind_unfold)
    then show ?thesis by (simp add: rf)
  next
    case False
    with less.prems obtain g1 again where
      p: "unbind_pass env g = Inr (g1, again)" and
      c: "if again then unbind env g1 = Inr g' else g' = g1"
      by (subst (asm) unbind_unfold) (auto simp: ebind_def split: sum.splits if_splits)
    show ?thesis
    proof (cases again)
      case True
      with unbind_pass_step [OF p] have "plen g1 < plen g" by simp
      from less.hyps [OF this] c True have "R g1 g'" by simp
      with st [OF p] show ?thesis by (rule tr)
    next
      case False
      with c st [OF p] show ?thesis by simp
    qed
  qed
qed

lemma ledger_grows_size: "ledger_grows g g' \<Longrightarrow> ledger_size g \<le> ledger_size g'"
proof (cases "unbound_indexes g")
  case None
  then show ?thesis by (simp add: ledger_size_def)
next
  case (Some led)
  assume lg: "ledger_grows g g'"
  with Some obtain led' where led': "unbound_indexes g' = Some led'" and d: "dom led' = dom led"
    by (auto simp: ledger_grows_def split: option.splits)
  have "length (the (led k)) \<le> length (the (led' k))" if "k \<in> dom led" for k
  proof -
    from lg obtain l where "ledger_entry g' k = ledger_entry g k @ l"
      by (auto simp: ledger_grows_def)
    moreover from that d have "k \<in> dom led'" by simp
    ultimately show ?thesis
      using that Some led' by (auto simp: ledger_entry_def)
  qed
  then show ?thesis
    using Some led' d by (simp add: ledger_size_def sum_mono)
qed

lemma calculate_masses_assigned:
  assumes "assigned env g rows"
  shows "calculate_masses g =
     Inr (g\<lparr>masses := (masses g)(''dm'' \<mapsto> species_mass (dm env) rows,
                               ''gas'' \<mapsto> species_mass (gas env) rows,
                               ''stellar'' \<mapsto> species_mass (star env) rows,
                               ''baryon'' \<mapsto> species_mass (gas env) rows + species_mass (star env) rows,
                               ''total'' \<mapsto> sum_list (map pd_mass rows))\<rparr>)"
  using assms
  by (simp add: calculate_masses_def assigned_def ebind_def attr_def pipeline_read_def
      np_take_local_where calculate_total_mass_def species_mass_def Let_def)

lemma calculate_virial_quantities_Inr:
  assumes "masses g ''total'' = Some mtot"
  shows "\<exists>g'. calculate_virial_quantities env g = Inr g' \<and>
     (\<exists>vq. virial_quantities g' = Some vq \<and> vq ''circular_velocity'' \<noteq> None \<and> vq ''r200c'' \<noteq> None) \<and>
     radii g' ''virial'' \<noteq> None \<and> radii g' ''r200c'' \<noteq> None \<and> temperatures g' ''virial'' \<noteq> None \<and>
     masses g' = masses g \<and> particle_data g' = particle_data g \<and> pos g' = pos g \<and>
     particle_indexes g' = particle_indexes g \<and> u_glist g' = u_glist g \<and> u_slist g' = u_slist g \<and>
     u_dmlist g' = u_dmlist g \<and> obj_type g' = obj_type g \<and> ndm g' = ndm g \<and> nstar g' = nstar g"
  using assms
  by (simp add: calculate_virial_quantities_def ebind_def item_def Let_def)

lemma calculate_velocity_dispersions_Inr:
  assumes "particle_data g = Some rows"
  shows "\<exists>g'. calculate_velocity_dispersions env g = Inr g' \<and>
     velocity_dispersions g' \<noteq> None \<and> virial_quantities g' = virial_quantities g \<and>
     radii g' = radii g \<and> temperatures g' = temperatures g \<and>
     masses g' = masses g \<and> particle_data g' = particle_data g \<and> pos g' = pos g \<and>
     particle_indexes g' = particle_indexes g \<and> u_glist g' = u_glist g \<and> u_slist g' = u_slist g \<and>
     u_dmlist g' = u_dmlist g \<and> obj_type g' = obj_type g \<and> ndm g' = ndm g \<and> nstar g' = nstar g"
  using assms
  by (simp add: calculate_velocity_dispersions_def ebind_def attr_def Let_def)

lemma calculate_angular_quantities_Inr:
  assumes "particle_data g = Some rows" "pos g = Some c" "masses g ''total'' = Some mtot"
    "virial_quantities g = Some vq" "vq ''circular_velocity'' \<noteq> None" "vq ''r200c'' \<noteq> None"
  shows "\<exists>g'. calculate_angular_quantities env g = Inr g' \<and>
     total_angular_momentum g' \<noteq> None \<and> angular_momentum_vector g' \<noteq> None \<and> spin g' \<noteq> None \<and>
     velocity_dispersions g' = velocity_dispersions g \<and> virial_quantities g' = virial_quantities g \<and>
     radii g' = radii g \<and> temperatures g' = temperatures g \<and>
     masses g' = masses g \<and> particle_data g' = particle_data g \<and> pos g' = pos g \<and>
     particle_indexes g' = particle_indexes g \<and> u_glist g' = u_glist g \<and> u_slist g' = u_slist g \<and>
     u_dmlist g' = u_dmlist g \<and> obj_type g' = obj_type g \<and> ndm g' = ndm g \<and> nstar g' = nstar g"
  using assms
  by (auto simp add: calculate_angular_quantities_def ebind_def attr_def item_def Let_def)

lemma assign_global_plists_Inr:
  assumes "particle_indexes g = Some idx" "particle_data g = Some rows"
    "u_glist g = Some (PySeq (local_where cg rows))"
    "u_slist g = Some (PySeq (local_where cs rows))"
    "u_dmlist g = Some (PySeq (local_where cd rows))"
  shows "assign_global_plists g =
     Inr (g\<lparr>u_glist := Some (PySeq (map pd_indexes (filter (\<lambda>p. pd_ptype p = cg) rows))),
            u_slist := Some (PySeq (map pd_indexes (filter (\<lambda>p. pd_ptype p = cs) rows))),
            u_dmlist := Some (PySeq (map pd_indexes (filter (\<lambda>p. pd_ptype p = cd) rows)))\<rparr>)"
  using assms
  by (simp add: assign_global_plists_def ebind_def attr_def pipeline_read_def np_take_local_where)

lemma calculate_quantities_ready:
  assumes "ready env g"
  shows "\<exists>g'. calculate_quantities env g = Inr g' \<and> quantities_done g' \<and>
     obj_type g' = obj_type g \<and> ndm g' = ndm g \<and> nstar g' = nstar g"
proof -
  from assms obtain pd idx c where
    pi: "particle_indexes g = Some idx" and asg: "assigned env g (map (np_at pd) idx)" and
    c: "pos g = Some c"
    by (rule readyE)
  define rows where "rows = map (np_at pd) idx"
  note m = calculate_masses_assigned [OF asg, folded rows_def]
  define g1 where "g1 = g\<lparr>masses := (masses g)(''dm'' \<mapsto> species_mass (dm env) rows,
                               ''gas'' \<mapsto> species_mass (gas env) rows,
                               ''stellar'' \<mapsto> species_mass (star env) rows,
                               ''baryon'' \<mapsto> species_mass (gas env) rows + species_mass (star env) rows,
                               ''total'' \<mapsto> sum_list (map pd_mass rows))\<rparr>"
  have m1: "calculate_masses g = Inr g1"
    using m by (simp add: g1_def)
  have f1: "masses g1 ''total'' = Some (sum_list (map pd_mass rows))"
    "masses g1 ''dm'' \<noteq> None" "masses g1 ''gas'' \<noteq> None" "masses g1 ''stellar'' \<noteq> None"
    "masses g1 ''baryon'' \<noteq> None"
    "particle_data g1 = Some rows" "pos g1 = Some c" "particle_indexes g1 = Some idx"
    "u_glist g1 = Some (PySeq (local_where (gas env) rows))"
    "u_slist g1 = Some (PySeq (local_where (star env) rows))"
    "u_dmlist g1 = Some (PySeq (local_where (dm env) rows))"
    "obj_type g1 = obj_type g" "ndm g1 = ndm g" "nstar g1 = nstar g"
    using asg pi c by (simp_all add: g1_def assigned_def rows_def)
  from calculate_virial_quantities_Inr [OF f1(1), of env] obtain g2 vq where
    v: "calculate_virial_quantities env g1 = Inr g2" and
    f2: "virial_quantities g2 = Some vq" "vq ''circular_velocity'' \<noteq> None" "vq ''r200c'' \<noteq> None"
      "radii g2 ''virial'' \<noteq> None" "radii g2 ''r200c'' \<noteq> None" "temperatures g2 ''virial'' \<noteq> None"
      "masses g2 = masses g1" "particle_data g2 = particle_data g1" "pos g2 = pos g1"
      "particle_indexes g2 = particle_indexes g1" "u_glist g2 = u_glist g1" "u_slist g2 = u_slist g1"
      "u_dmlist g2 = u_dmlist g1" "obj_type g2 = obj_type g1" "ndm g2 = ndm g1" "nstar g2 = nstar g1"
    by blast
  have pd2: "particle_data g2 = Some rows" using f2 f1 by simp
  from calculate_velocity_dispersions_Inr [OF pd2, of env] obtain g3 where
    d: "calculate_velocity_dispersions env g2 = Inr g3" and
    f3: "velocity_dispersions g3 \<noteq> None" "virial_quantities g3 = virial_quantities g2"
      "radii g3 = radii g2" "temperatures g3 = temperatures g2"
      "masses g3 = masses g2" "particle_data g3 = particle_data g2" "pos g3 = pos g2"
      "particle_indexes g3 = particle_indexes g2" "u_glist g3 = u_glist g2" "u_slist g3 = u_slist g2"
      "u_dmlist g3 = u_dmlist g2" "obj_type g3 = obj_type g2" "ndm g3 = ndm g2" "nstar g3 = nstar g2"
    by blast
  have h3: "particle_data g3 = Some rows" "pos g3 = Some c"
    "masses g3 ''total'' = Some (sum_list (map pd_mass rows))" "virial_quantities g3 = Some vq"
    using f3 f2 f1 by simp_all
  from calculate_angular_quantities_Inr [OF h3 f2(2,3), of env] obtain g4 where
    a: "calculate_angular_quantities env g3 = Inr g4" and
    f4: "total_angular_momentum g4 \<noteq> None" "angular_momentum_vector g4 \<noteq> None" "spin g4 \<noteq> None"
      "velocity_dispersions g4 = velocity_dispersions g3" "virial_quantities g4 = virial_quantities g3"
      "radii g4 = radii g3" "temperatures g4 = temperatures g3"
      "masses g4 = masses g3" "particle_data g4 = particle_data g3" "pos g4 = pos g3"
      "particle_indexes g4 = particle_indexes g3" "u_glist g4 = u_glist g3" "u_slist g4 = u_slist g3"
      "u_dmlist g4 = u_dmlist g3" "obj_type g4 = obj_type g3" "ndm g4 = ndm g3" "nstar g4 = nstar g3"
    by blast
  have h4: "particle_indexes g4 = Some idx" "particle_data g4 = Some rows"
    "u_glist g4 = Some (PySeq (local_where (gas env) rows))"
    "u_slist g4 = Some (PySeq (local_where (star env) rows))"
    "u_dmlist g4 = Some (PySeq (local_where (dm env) rows))"
    using f4 f3 f2 f1 by simp_all
  note p = assign_global_plists_Inr [OF h4]
  define g5 where "g5 = g4\<lparr>u_glist := Some (PySeq (map pd_indexes (filter (\<lambda>p. pd_ptype p = gas env) rows))),
            u_slist := Some (PySeq (map pd_indexes (filter (\<lambda>p. pd_ptype p = star env) rows))),
            u_dmlist := Some (PySeq (map pd_indexes (filter (\<lambda>p. pd_ptype p = dm env) rows)))\<rparr>"
  have "calculate_quantities env g = Inr g5"
    using m1 v d a p by (simp add: calculate_quantities_def ebind_def g5_def)
  moreover have "quantities_done g5"
    using f4 f3 f2 f1 by (simp add: quantities_done_def g5_def)
  moreover have "obj_type g5 = obj_type g" "ndm g5 = ndm g" "nstar g5 = nstar g"
    using f4 f3 f2 f1 by (simp_all add: g5_def)
  ultimately show ?thesis by blast
qed

lemma length_local_where_filter:
  "length (local_where c rows) = length (filter (\<lambda>p. pd_ptype p = c) rows)"
proof -
  have "length (filter (\<lambda>p. pd_ptype p = c) rows)
      = length (map (nth rows) (filter (\<lambda>i. pd_ptype (rows ! i) = c) [0..<length rows]))"
    by (simp only: map_nth_filter_upt [where P = "\<lambda>p. pd_ptype p = c"])
  then show ?thesis
    by (simp add: local_where_def np_where_def)
qed

lemma cleanup_fields [simp]:
  "particle_data (cleanup g) = None" "particle_indexes (cleanup g) = None"
  "u_pdata (cleanup g) = None" "masses (cleanup g) = masses g" "pos (cleanup g) = pos g"
  "vel (cleanup g) = vel g" "unbound_indexes (cleanup g) = unbound_indexes g"
  "unbind_iterations (cleanup g) = unbind_iterations g"
  by (simp_all add: cleanup_def)

lemma valid_cleanup [simp]: "valid (cleanup g) = valid g"
  by (rule valid_frame) (simp_all add: cleanup_def)

lemma same_derived_cleanup: "same_derived g (cleanup g)"
  by (simp add: same_derived_def cleanup_def)

lemma quantities_done_cleanup [simp]: "quantities_done (cleanup g) = quantities_done g"
  by (simp add: quantities_done_def cleanup_def)

lemma unbind_same_derived: "unbind env g = Inr g' \<Longrightarrow> same_derived g g'"
  by (rule unbind_preserves [where R = same_derived and env = env])
     (auto intro: same_derived_refl same_derived_trans dest: unbind_pass_step)

lemma process_group_well_formed:
  assumes wf: "well_formed env g pdata"
  shows "\<exists>g'. process_group env g pdata = Inr g' \<and>
     particle_data g' = None \<and> particle_indexes g' = None \<and> u_pdata g' = None \<and>
     (valid g' = Inr False \<or> valid g' = Inr True \<and> quantities_done g') \<and>
     (valid g' = Inr False \<longrightarrow> same_derived g g') \<and>
     (\<forall>idx. particle_indexes g = Some idx \<and>
        defining_count env g (map (np_at pdata) idx) < 32 \<longrightarrow>
        valid g' = Inr False \<and> masses g' = masses g \<and> pos g' = pos g \<and> vel g' = vel g \<and>
        unbound_indexes g' = unbound_indexes g \<and> unbind_iterations g' = unbind_iterations g)"
proof -
  from wf obtain idx where pi: "particle_indexes g = Some idx" and
    rng: "\<forall>i\<in>set idx. in_range (length pdata) i" and
    kn: "\<forall>i\<in>set idx. known_species env (np_at pdata i)" and lo: "ledger_ok env g"
    by (auto simp: well_formed_def split: option.splits)
  define rows where "rows = map (np_at pdata) idx"
  define g1 where "g1 = g\<lparr>u_pdata := Some pdata, particle_data := Some rows\<rparr>"
  define g2 where "g2 = with_local_indexes env g1 rows"
  have a1: "assign_particle_data (g\<lparr>u_pdata := Some pdata\<rparr>) = Inr g1"
    unfolding g1_def rows_def
    using assign_particle_data_ok [of "g\<lparr>u_pdata := Some pdata\<rparr>" pdata idx] pi rng by simp
  have a2: "assign_local_indexes env g1 = Inr g2"
    unfolding g2_def by (rule assign_local_indexes_ok) (simp add: g1_def)
  have asg2: "assigned env g2 rows"
    unfolding g2_def by (rule assigned_with_local_indexes) (simp add: g1_def)
  have cnt: "valid g2 = Inr (\<not> defining_count env g rows < 32)"
    using valid_assigned [OF asg2]
    by (simp add: defining_count_def length_local_where_filter g2_def g1_def split: kind.splits)
  have d2: "same_derived g g2"
    by (simp add: same_derived_def g2_def g1_def with_local_indexes_def)
  show ?thesis
  proof (cases "defining_count env g rows < 32")
    case True
    with a1 a2 cnt have "process_group env g pdata = Inr (cleanup g2)"
      by (simp add: process_group_def ebind_def)
    moreover have "same_derived g (cleanup g2)"
      using d2 same_derived_cleanup by (rule same_derived_trans)
    moreover have "masses (cleanup g2) = masses g" "pos (cleanup g2) = pos g"
      "vel (cleanup g2) = vel g" "unbound_indexes (cleanup g2) = unbound_indexes g"
      "unbind_iterations (cleanup g2) = unbind_iterations g"
      by (simp_all add: g2_def g1_def)
    ultimately show ?thesis
      using cnt True pi by (intro exI [of _ "cleanup g2"]) (simp add: rows_def)
  next
    case False
    define g3 where "g3 = g2\<lparr>masses := (masses g2)(''total'' \<mapsto> sum_list (map pd_mass rows))\<rparr>"
    define g4 where "g4 = g3\<lparr>pos := Some (get_center_of_mass_quantity pd_pos rows
            (sum_list (map pd_mass rows))),
          vel := Some (get_center_of_mass_quantity pd_vel rows (sum_list (map pd_mass rows)))\<rparr>"
    have pd2: "particle_data g2 = Some rows"
      using asg2 by (simp add: assigned_def)
    have a3: "calculate_total_mass g2 = Inr g3"
      using pd2 by (simp add: calculate_total_mass_def ebind_def attr_def g3_def)
    have a4: "calculate_center_of_mass_quantities g3 = Inr g4"
      using pd2
      by (simp add: calculate_center_of_mass_quantities_def ebind_def attr_def item_def g3_def g4_def)
    have r4: "ready env g4"
    proof (rule readyI [where pd = pdata and idx = idx])
      show "assigned env g4 (map (np_at pdata) idx)"
        by (rule assigned_frame [OF asg2 [unfolded rows_def]]) (simp_all add: g4_def g3_def)
      show "ledger_ok env g4"
        using lo by (simp add: ledger_ok_def g4_def g3_def g2_def g1_def)
    qed (use rng kn pi in \<open>auto simp: g4_def g3_def g2_def g1_def\<close>)
    have v4: "valid g4 = Inr True"
      using cnt False valid_frame [of g4 g2] by (simp add: g4_def g3_def)
    have d4: "same_derived g g4"
      using d2 by (simp add: same_derived_def g4_def g3_def)
    from unbind_ready [OF r4 v4] obtain g5 where
      u: "unbind env g4 = Inr g5" and r5: "ready env g5"
      by blast
    have d5: "same_derived g g5"
      using d4 unbind_same_derived [OF u] by (rule same_derived_trans)
    from r5 obtain pd5 idx5 where "assigned env g5 (map (np_at pd5) idx5)"
      by (rule readyE)
    from valid_assigned [OF this] obtain v' where v5: "valid g5 = Inr v'"
      by blast
    show ?thesis
    proof (cases v')
      case False
      with a1 a2 cnt \<open>\<not> defining_count env g rows < 32\<close> a3 a4 u v5
      have "process_group env g pdata = Inr (cleanup g5)"
        by (simp add: process_group_def ebind_def)
      moreover have "same_derived g (cleanup g5)"
        using d5 same_derived_cleanup by (rule same_derived_trans)
      ultimately show ?thesis
        using v5 False pi \<open>\<not> defining_count env g rows < 32\<close>
        by (intro exI [of _ "cleanup g5"]) (simp add: rows_def)
    next
      case True
      from calculate_quantities_ready [OF r5] obtain g6 where
        q: "calculate_quantities env g5 = Inr g6" and qd: "quantities_done g6" and
        f: "obj_type g6 = obj_type g5" "ndm g6 = ndm g5" "nstar g6 = nstar g5"
        by blast
      have v6: "valid g6 = Inr True"
        using valid_frame [OF f(1) f(3) f(2)] v5 True by simp
      from a1 a2 cnt \<open>\<not> defining_count env g rows < 32\<close> a3 a4 u v5 True q
      have "process_group env g pdata = Inr (cleanup g6)"
        by (simp add: process_group_def ebind_def)
      then show ?thesis
        using v6 qd pi \<open>\<not> defining_count env g rows < 32\<close>
        by (intro exI [of _ "cleanup g6"]) (simp add: rows_def)
    qed
  qed
qed

subsection \<open>The examples evaluated\<close>

lemma four_loop:
  "unbind_loop [1, 0] (unbind_enter unit_sim four_ready) =
     Inr (four_ready\<lparr>unbound_indexes := Some [0 \<mapsto> [11], 4 \<mapsto> [], 1 \<mapsto> [10]],
                     unbind_iterations := Some 1, particle_indexes := Some [2, 3]\<rparr>)"
  by (simp add: unbind_enter_def four_ready_def four_body_def create_new_group_def four_rows_def
      ebind_def attr_def item_def del_at_def fresh_ledger_def unit_sim_def fun_upd_twist)

lemma four_reassign:
  "unbind_reassign unit_sim
     (four_ready\<lparr>unbound_indexes := Some [0 \<mapsto> [11], 4 \<mapsto> [], 1 \<mapsto> [10]],
                  unbind_iterations := Some 1, particle_indexes := Some [2, 3]\<rparr>) =
   Inr (four_after, False)"
  by (simp add: unbind_reassign_def assign_particle_data_def assign_local_indexes_def valid_def
      ebind_def attr_def four_ready_def four_body_def create_new_group_def np_index_def
      local_where_def np_where_def four_rows_def unit_sim_def MINIMUM_DM_PER_HALO_def
      four_after_def Let_def)

lemma four_pass: "unbind_pass unit_sim four_ready = Inr (four_after, False)"
proof -
  have q: "positive_of four_energies = [0, 1]"
    using four_energies_positive by (simp add: rev_swap)
  have n: "(0 < length [0, 1::nat]) = True" "rev [0, 1::nat] = [1, 0]"
    by simp_all
  show ?thesis
    by (simp only: unbind_pass_def four_energy ebind_def sum.case q n if_True four_loop
        four_reassign prod.case not_False_eq_True)
qed

lemma four_not_gated: "\<not> unbind_gated four_ready"
  by (simp add: unbind_gated_def four_ready_def four_body_def create_new_group_def UNBIND_HALOS_def)

lemma four_unbind: "unbind unit_sim four_ready = Inr four_after"
  by (subst unbind_unfold) (simp only: four_pass ebind_def sum.case prod.case four_not_gated if_False)

lemma four_plen: "plen four_ready = 4" "plen four_after = 2"
  by (simp_all add: plen_def four_after_def four_ready_def four_body_def create_new_group_def)

lemma four_ledger_size: "ledger_size four_ready = 0" "ledger_size four_after = 2"
  by (simp_all add: ledger_size_def four_after_def four_ready_def four_body_def
      create_new_group_def)

lemma process_head_ready:
  assumes wf: "well_formed env g pdata" and pi: "particle_indexes g = Some idx"
  shows "\<exists>g4. process_head env g pdata = Inr g4 \<and> ready env g4 \<and>
     valid g4 = Inr (\<not> defining_count env g (map (np_at pdata) idx) < 32) \<and>
     iterations g4 = iterations g \<and> plen g4 = length idx \<and> obj_type g4 = obj_type g"
proof -
  from wf pi have
    rng: "\<forall>i\<in>set idx. in_range (length pdata) i" and
    kn: "\<forall>i\<in>set idx. known_species env (np_at pdata i)" and lo: "ledger_ok env g"
    by (auto simp: well_formed_def split: option.splits)
  define rows where "rows = map (np_at pdata) idx"
  define g1 where "g1 = g\<lparr>u_pdata := Some pdata, particle_data := Some rows\<rparr>"
  define g2 where "g2 = with_local_indexes env g1 rows"
  define g3 where "g3 = g2\<lparr>masses := (masses g2)(''total'' \<mapsto> sum_list (map pd_mass rows))\<rparr>"
  define g4 where "g4 = g3\<lparr>pos := Some (get_center_of_mass_quantity pd_pos rows
          (sum_list (map pd_mass rows))),
        vel := Some (get_center_of_mass_quantity pd_vel rows (sum_list (map pd_mass rows)))\<rparr>"
  have a1: "assign_particle_data (g\<lparr>u_pdata := Some pdata\<rparr>) = Inr g1"
    unfolding g1_def rows_def
    using assign_particle_data_ok [of "g\<lparr>u_pdata := Some pdata\<rparr>" pdata idx] pi rng by simp
  have a2: "assign_local_indexes env g1 = Inr g2"
    unfolding g2_def by (rule assign_local_indexes_ok) (simp add: g1_def)
  have asg2: "assigned env g2 rows"
    unfolding g2_def by (rule assigned_with_local_indexes) (simp add: g1_def)
  have cnt: "valid g2 = Inr (\<not> defining_count env g rows < 32)"
    using valid_assigned [OF asg2]
    by (simp add: defining_count_def length_local_where_filter g2_def g1_def split: kind.splits)
  have pd2: "particle_data g2 = Some rows"
    using asg2 by (simp add: assigned_def)
  have a3: "calculate_total_mass g2 = Inr g3"
    using pd2 by (simp add: calculate_total_mass_def ebind_def attr_def g3_def)
  have a4: "calculate_center_of_mass_quantities g3 = Inr g4"
    using pd2
    by (simp add: calculate_center_of_mass_quantities_def ebind_def attr_def item_def g3_def g4_def)
  have "process_head env g pdata = Inr g4"
    by (simp add: process_head_def a1 a2 a3 a4 ebind_def)
  moreover have "ready env g4"
  proof (rule readyI [where pd = pdata and idx = idx])
    show "assigned env g4 (map (np_at pdata) idx)"
      by (rule assigned_frame [OF asg2 [unfolded rows_def]]) (simp_all add: g4_def g3_def)
    show "ledger_ok env g4"
      using lo by (simp add: ledger_ok_def g4_def g3_def g2_def g1_def)
  qed (use rng kn pi in \<open>auto simp: g4_def g3_def g2_def g1_def\<close>)
  moreover have "valid g4 = Inr (\<not> defining_count env g rows < 32)"
    using cnt valid_frame [of g4 g2] by (simp add: g4_def g3_def)
  moreover have "iterations g4 = iterations g" "plen g4 = length idx" "obj_type g4 = obj_type g"
    using pi by (simp_all add: iterations_def plen_def g4_def g3_def g2_def g1_def)
  ultimately show ?thesis
    by (simp add: rows_def)
qed



lemma fringe_head: "process_head unit_sim fringe fringe_pdata = Inr fringe_ready"
  by (simp add: process_head_def assign_particle_data_def fringe_def create_new_group_def
      attr_def ebind_def np_take_map in_range_def fringe_pdata_def np_at_def
      assign_local_indexes_def unit_sim_def calculate_total_mass_def
      calculate_center_of_mass_quantities_def item_def get_center_of_mass_quantity_def
      fringe_ready_def fringe_rows_def Let_def sum_list_replicate)

lemma fringe_energy:
  "unbind_energy unit_sim (unbind_enter unit_sim fringe_ready) =
     Inr (replicate 30 (Finite (- 31)) @ [Finite (5 / 2), Finite (5 / 2)])"
  by (simp add: unbind_energy_def fringe_ready_def fringe_def create_new_group_def attr_def
      ebind_def item_def unbind_enter_def fringe_rows_def fringe_pdata_def particle_energy_def
      to_vec_def yt_to_def unit_sim_def sep_sq_def scale_vec_def np_square_def np_sub_def Let_def
      replicate_add [symmetric])

lemma fringe_positive:
  "positive_of (replicate 30 (Finite (- 31)) @ [Finite (5 / 2), Finite (5 / 2)]) = [30, 31]"
proof -
  have "[0..<32] = [0..<30] @ [30, 31]"
    by (simp add: upt_rec)
  moreover have "filter (\<lambda>i. np_gt0 ((replicate 30 (Finite (- 31)) @ [Finite (5 / 2), Finite (5 / 2)]) ! i))
      [0..<30] = []"
    by (simp add: nth_append)
  ultimately show ?thesis
    by (simp add: positive_of_def np_where_def nth_append)
qed

lemma fringe_loop:
  "unbind_loop [31, 30] (unbind_enter unit_sim fringe_ready) =
     Inr (fringe_ready\<lparr>unbound_indexes := Some [0 \<mapsto> [], 4 \<mapsto> [], 1 \<mapsto> [103, 102]],
                     unbind_iterations := Some 1,
                     particle_indexes := Some (replicate 15 0 @ replicate 15 1)\<rparr>)"
  by (simp add: unbind_enter_def fringe_ready_def fringe_def create_new_group_def fringe_rows_def
      fringe_pdata_def ebind_def attr_def item_def del_at_def fresh_ledger_def unit_sim_def
      nth_append)

lemma fringe_kept_count: "length (local_where 1 fringe_kept) = 30"
  by (simp add: length_local_where_filter fringe_kept_def fringe_pdata_def)

lemma fringe_reassign:
  "unbind_reassign unit_sim
     (fringe_ready\<lparr>unbound_indexes := Some [0 \<mapsto> [], 4 \<mapsto> [], 1 \<mapsto> [103, 102]],
                     unbind_iterations := Some 1,
                     particle_indexes := Some (replicate 15 0 @ replicate 15 1)\<rparr>) =
   Inr (fringe_after, False)"
  by (simp add: unbind_reassign_def assign_particle_data_def assign_local_indexes_def valid_def
      ebind_def attr_def fringe_ready_def fringe_def create_new_group_def np_take_map in_range_def
      np_at_def fringe_pdata_def unit_sim_def MINIMUM_DM_PER_HALO_def fringe_after_def Let_def
      fringe_kept_def length_local_where_filter)

lemma fringe_pass: "unbind_pass unit_sim fringe_ready = Inr (fringe_after, False)"
proof -
  have n: "(0 < length [30, 31::nat]) = True" "rev [30, 31::nat] = [31, 30]"
    by simp_all
  show ?thesis
    by (simp only: unbind_pass_def fringe_energy ebind_def sum.case fringe_positive n if_True
        fringe_loop fringe_reassign prod.case not_False_eq_True)
qed

lemma fringe_plen: "plen fringe_ready = 32" "plen fringe_after = 30"
  by (simp_all add: plen_def fringe_after_def fringe_ready_def fringe_def create_new_group_def)

lemma fringe_ledger_size: "ledger_size fringe_ready = 0" "ledger_size fringe_after = 2"
  by (simp_all add: ledger_size_def fringe_after_def fringe_ready_def fringe_def
      create_new_group_def)

lemma fringe_not_gated: "\<not> unbind_gated fringe_ready"
  by (simp add: unbind_gated_def fringe_ready_def fringe_def create_new_group_def UNBIND_HALOS_def)

lemma fringe_unbind: "unbind unit_sim fringe_ready = Inr fringe_after"
  by (subst unbind_unfold)
     (simp only: fringe_pass ebind_def sum.case prod.case fringe_not_gated if_False)

lemma fringe_valid: "valid fringe_ready = Inr True" "valid fringe_after = Inr False"
  by (simp_all add: valid_def fringe_ready_def fringe_after_def fringe_def create_new_group_def
      ebind_def attr_def MINIMUM_DM_PER_HALO_def length_local_where_filter fringe_rows_def
      fringe_kept_def fringe_pdata_def)

lemma process_group_after_head:
  assumes h: "process_head env g pdata = Inr g4" and v: "valid g4 = Inr True"
  shows "process_group env g pdata =
     ebind (unbind env g4) (\<lambda>g5.
     ebind (valid g5) (\<lambda>v'.
     ebind (if v' then calculate_quantities env g5 else Inr g5) (\<lambda>g6. Inr (cleanup g6))))"
proof -
  from h obtain g1 g2 g3 where
    a1: "assign_particle_data (g\<lparr>u_pdata := Some pdata\<rparr>) = Inr g1" and
    a2: "assign_local_indexes env g1 = Inr g2" and
    a3: "calculate_total_mass g2 = Inr g3" and
    a4: "calculate_center_of_mass_quantities g3 = Inr g4"
    by (auto simp: process_head_def ebind_def split: sum.splits)
  have "obj_type g3 = obj_type g2 \<and> nstar g3 = nstar g2 \<and> ndm g3 = ndm g2"
    using a3 by (auto simp: calculate_total_mass_def ebind_def attr_def split: option.splits)
  moreover have "obj_type g4 = obj_type g3 \<and> nstar g4 = nstar g3 \<and> ndm g4 = ndm g3"
    using a4
    by (auto simp: calculate_center_of_mass_quantities_def ebind_def attr_def item_def
        split: option.splits)
  ultimately have "valid g2 = valid g4"
    by (intro valid_frame) simp_all
  with v have v2: "valid g2 = Inr True" by simp
  show ?thesis
    by (simp add: process_group_def a1 a2 a3 a4 v2 ebind_def split: sum.splits)
qed

lemma fringe_process: "process_group unit_sim fringe fringe_pdata = Inr (cleanup fringe_after)"
  by (simp add: process_group_after_head [OF fringe_head fringe_valid(1)] fringe_unbind
      fringe_valid ebind_def)

lemma four_well_formed: "well_formed unit_sim four_body four_rows"
  by (auto simp: well_formed_def four_body_def create_new_group_def four_rows_def in_range_def
      known_species_def np_at_def unit_sim_def ledger_ok_def)



subsection \<open>Masses, virial quantities and lazy lists\<close>

lemma calculate_quantities_masses:
  assumes "calculate_quantities env g = Inr g'"
  shows "\<exists>g1. calculate_masses g = Inr g1 \<and> masses g' = masses g1"
proof -
  from assms obtain g1 g2 g3 g4 where
    m: "calculate_masses g = Inr g1" and v: "calculate_virial_quantities env g1 = Inr g2" and
    d: "calculate_velocity_dispersions env g2 = Inr g3" and
    a: "calculate_angular_quantities env g3 = Inr g4" and p: "assign_global_plists g4 = Inr g'"
    by (auto simp: calculate_quantities_def ebind_def split: sum.splits)
  have "masses g2 = masses g1"
    using v by (auto simp: calculate_virial_quantities_def ebind_def item_def Let_def
        split: option.splits)
  moreover have "masses g3 = masses g2"
    using d by (auto simp: calculate_velocity_dispersions_def ebind_def attr_def Let_def
        split: option.splits)
  moreover have "masses g4 = masses g3"
    using a by (auto simp: calculate_angular_quantities_def ebind_def attr_def item_def Let_def
        split: option.splits)
  moreover have "masses g' = masses g4"
    using p by (auto simp: assign_global_plists_def ebind_def attr_def pipeline_read_def
        split: option.splits pyval.splits sum.splits)
  ultimately show ?thesis using m by simp
qed

lemma process_group_valid_D:
  assumes p: "process_group env g pdata = Inr g'" and v: "valid g' = Inr True"
  shows "\<exists>g4 g5 g6. process_head env g pdata = Inr g4 \<and> valid g4 = Inr True \<and>
     unbind env g4 = Inr g5 \<and> calculate_quantities env g5 = Inr g6 \<and> g' = cleanup g6"
proof -
  from p obtain g1 g2 v2 g6 where
    a1: "assign_particle_data (g\<lparr>u_pdata := Some pdata\<rparr>) = Inr g1" and
    a2: "assign_local_indexes env g1 = Inr g2" and v2: "valid g2 = Inr v2" and
    r: "(if v2 then
              ebind (calculate_total_mass g2) (\<lambda>g3.
              ebind (calculate_center_of_mass_quantities g3) (\<lambda>g4.
              ebind (unbind env g4) (\<lambda>g5.
              ebind (valid g5) (\<lambda>v'.
                if v' then calculate_quantities env g5 else Inr g5))))
            else Inr g2) = Inr g6" and g': "g' = cleanup g6"
    by (auto simp: process_group_def ebind_def split: sum.splits)
  have v2t: v2
  proof (rule ccontr)
    assume "\<not> v2"
    with r have "g6 = g2" by simp
    with g' v v2 \<open>\<not> v2\<close> show False by simp
  qed
  with r obtain g3 g4 g5 v' where
    a3: "calculate_total_mass g2 = Inr g3" and
    a4: "calculate_center_of_mass_quantities g3 = Inr g4" and
    u: "unbind env g4 = Inr g5" and v5: "valid g5 = Inr v'" and
    q: "(if v' then calculate_quantities env g5 else Inr g5) = Inr g6"
    by (auto simp: ebind_def split: sum.splits)
  have v't: v'
  proof (rule ccontr)
    assume "\<not> v'"
    with q have "g6 = g5" by simp
    with g' v v5 \<open>\<not> v'\<close> show False by simp
  qed
  have h: "process_head env g pdata = Inr g4"
    by (simp add: process_head_def a1 a2 a3 a4 ebind_def)
  have "obj_type g3 = obj_type g2 \<and> nstar g3 = nstar g2 \<and> ndm g3 = ndm g2"
    using a3 by (auto simp: calculate_total_mass_def ebind_def attr_def split: option.splits)
  moreover have "obj_type g4 = obj_type g3 \<and> nstar g4 = nstar g3 \<and> ndm g4 = ndm g3"
    using a4
    by (auto simp: calculate_center_of_mass_quantities_def ebind_def attr_def item_def
        split: option.splits)
  ultimately have "valid g4 = valid g2"
    by (intro valid_frame) simp_all
  with v2 v2t h u q v't g' show ?thesis by simp
qed

lemma species_partition:
  assumes "\<forall>p\<in>set rows. known_species env p" "distinct [gas env, star env, dm env]"
  shows "species_mass (dm env) rows + species_mass (gas env) rows + species_mass (star env) rows
       = sum_list (map pd_mass rows)"
  using assms(1)
proof (induction rows)
  case Nil
  show ?case by (simp add: species_mass_def)
next
  case (Cons p rows)
  then have "known_species env p" and
    ih: "species_mass (dm env) rows + species_mass (gas env) rows + species_mass (star env) rows
       = sum_list (map pd_mass rows)"
    by simp_all
  then show ?case
    using assms(2) by (auto simp: species_mass_def known_species_def)
qed

lemma process_group_valid_masses:
  assumes wf: "well_formed env g pdata" and p: "process_group env g pdata = Inr g'"
    and v: "valid g' = Inr True"
  shows "\<exists>rows. (\<forall>p\<in>set rows. known_species env p) \<and>
     masses g' ''dm'' = Some (species_mass (dm env) rows) \<and>
     masses g' ''gas'' = Some (species_mass (gas env) rows) \<and>
     masses g' ''stellar'' = Some (species_mass (star env) rows) \<and>
     masses g' ''baryon'' = Some (species_mass (gas env) rows + species_mass (star env) rows) \<and>
     masses g' ''total'' = Some (sum_list (map pd_mass rows))"
proof -
  from process_group_valid_D [OF p v] obtain g4 g5 g6 where
    h: "process_head env g pdata = Inr g4" and v4: "valid g4 = Inr True" and
    u: "unbind env g4 = Inr g5" and q: "calculate_quantities env g5 = Inr g6" and
    g': "g' = cleanup g6"
    by blast
  from wf obtain idx where pi: "particle_indexes g = Some idx"
    by (auto simp: well_formed_def split: option.splits)
  from process_head_ready [OF wf pi] h have r4: "ready env g4"
    by auto
  from unbind_ready [OF r4 v4] u have r5: "ready env g5"
    by auto
  then obtain pd5 idx5 where
    kn: "\<forall>i\<in>set idx5. known_species env (np_at pd5 i)" and
    asg: "assigned env g5 (map (np_at pd5) idx5)"
    by (rule readyE)
  from calculate_quantities_masses [OF q] calculate_masses_assigned [OF asg]
  have "masses g6 = (masses g5)(''dm'' \<mapsto> species_mass (dm env) (map (np_at pd5) idx5),
                               ''gas'' \<mapsto> species_mass (gas env) (map (np_at pd5) idx5),
                               ''stellar'' \<mapsto> species_mass (star env) (map (np_at pd5) idx5),
                               ''baryon'' \<mapsto> species_mass (gas env) (map (np_at pd5) idx5)
                                  + species_mass (star env) (map (np_at pd5) idx5),
                               ''total'' \<mapsto> sum_list (map pd_mass (map (np_at pd5) idx5)))"
    by auto
  with g' kn show ?thesis
    by (intro exI [of _ "map (np_at pd5) idx5"]) simp
qed

lemma mixed_head: "process_head unit_sim mixed mixed_pdata = Inr mixed_ready"
  by (simp add: process_head_def assign_particle_data_def mixed_def create_new_group_def
      attr_def ebind_def np_take_map in_range_def mixed_pdata_def np_at_def
      assign_local_indexes_def unit_sim_def calculate_total_mass_def
      calculate_center_of_mass_quantities_def item_def get_center_of_mass_quantity_def
      mixed_ready_def mixed_rows_def Let_def sum_list_replicate)

lemma mixed_energy:
  "unbind_energy unit_sim (unbind_enter unit_sim mixed_ready) =
     Inr (replicate 32 (Finite (- 32)) @ [NegInf])"
  by (simp add: unbind_energy_def mixed_ready_def mixed_def create_new_group_def attr_def
      ebind_def item_def unbind_enter_def mixed_rows_def mixed_pdata_def particle_energy_def
      to_vec_def yt_to_def unit_sim_def sep_sq_def scale_vec_def np_square_def np_sub_def Let_def
      replicate_add [symmetric] np_signed_inf_def)

lemma mixed_positive: "positive_of (replicate 32 (Finite (- 32)) @ [NegInf]) = []"
  by (auto simp: positive_of_def np_where_def nth_append filter_empty_conv less_Suc_eq)

lemma mixed_pass: "unbind_pass unit_sim mixed_ready = Inr (unbind_enter unit_sim mixed_ready, False)"
  by (simp add: unbind_pass_def mixed_energy ebind_def mixed_positive)

lemma mixed_not_gated: "\<not> unbind_gated mixed_ready"
  by (simp add: unbind_gated_def mixed_ready_def mixed_def create_new_group_def UNBIND_HALOS_def)

lemma mixed_unbind: "unbind unit_sim mixed_ready = Inr (unbind_enter unit_sim mixed_ready)"
  by (subst unbind_unfold)
     (simp only: mixed_pass ebind_def sum.case prod.case mixed_not_gated if_False)

lemma mixed_valid:
  "valid mixed_ready = Inr True" "valid (unbind_enter unit_sim mixed_ready) = Inr True"
  by (simp_all add: valid_def mixed_ready_def mixed_def create_new_group_def unbind_enter_def
      ebind_def attr_def MINIMUM_DM_PER_HALO_def length_local_where_filter mixed_rows_def
      mixed_pdata_def)

lemma mixed_assigned: "assigned unit_sim (unbind_enter unit_sim mixed_ready) mixed_rows"
  by (simp add: assigned_def unbind_enter_def mixed_ready_def unit_sim_def)

lemma mixed_species:
  "species_mass 1 mixed_rows = 32" "species_mass 0 mixed_rows = 1" "species_mass 4 mixed_rows = 0"
  "sum_list (map pd_mass mixed_rows) = 33"
  by (simp_all add: species_mass_def mixed_rows_def mixed_pdata_def sum_list_replicate)

lemma mixed_well_formed: "well_formed unit_sim mixed mixed_pdata"
  by (auto simp: well_formed_def mixed_def create_new_group_def mixed_pdata_def in_range_def
      known_species_def np_at_def unit_sim_def ledger_ok_def)

lemma mixed_process:
  "\<exists>g'. process_group unit_sim mixed mixed_pdata = Inr g' \<and> valid g' = Inr True \<and>
     masses g' ''dm'' = Some 32 \<and> masses g' ''gas'' = Some 1 \<and> masses g' ''stellar'' = Some 0 \<and>
     masses g' ''baryon'' = Some 1 \<and> masses g' ''total'' = Some 33"
proof -
  have pi: "particle_indexes mixed = Some (replicate 16 0 @ replicate 16 1 @ [2])"
    by (simp add: mixed_def create_new_group_def)
  from process_head_ready [OF mixed_well_formed pi] mixed_head have r: "ready unit_sim mixed_ready"
    by auto
  from unbind_ready [OF r mixed_valid(1)] mixed_unbind
  have r5: "ready unit_sim (unbind_enter unit_sim mixed_ready)"
    by auto
  from calculate_quantities_ready [OF r5] obtain g6 where
    q: "calculate_quantities unit_sim (unbind_enter unit_sim mixed_ready) = Inr g6" and
    f: "obj_type g6 = obj_type (unbind_enter unit_sim mixed_ready)"
       "ndm g6 = ndm (unbind_enter unit_sim mixed_ready)"
       "nstar g6 = nstar (unbind_enter unit_sim mixed_ready)"
    by blast
  have v6: "valid g6 = Inr True"
    using valid_frame [OF f(1) f(3) f(2)] mixed_valid(2) by simp
  have p: "process_group unit_sim mixed mixed_pdata = Inr (cleanup g6)"
    by (simp add: process_group_after_head [OF mixed_head mixed_valid(1)] mixed_unbind
        mixed_valid ebind_def q)
  from calculate_quantities_masses [OF q] calculate_masses_assigned [OF mixed_assigned]
  have "masses g6 ''dm'' = Some 32 \<and> masses g6 ''gas'' = Some 1 \<and> masses g6 ''stellar'' = Some 0 \<and>
     masses g6 ''baryon'' = Some 1 \<and> masses g6 ''total'' = Some 33"
    by (auto simp: unit_sim_def mixed_species)
  with p v6 show ?thesis by simp
qed

lemma yt_to_Finite: "yt_to env a b (Finite x) = Finite (x * conv env a b)"
  by (simp add: yt_to_def)

lemma np_div_Finite: "y \<noteq> 0 \<Longrightarrow> np_div (Finite x) (Finite y) = Finite (x / y)"
  by simp

lemma np_sqrt_Finite: "0 \<le> x \<Longrightarrow> np_sqrt (Finite x) = Finite (sqrt x)"
  by (simp add: not_less)

lemma np_square_Finite: "np_square (Finite x) = Finite (x\<^sup>2)"
  by (simp add: np_square_def power2_eq_square)

lemma np_pow_third_Finite: "0 \<le> x \<Longrightarrow> np_pow_third (Finite x) = Finite (x powr (1 / 3))"
  by (simp add: not_less)

lemma get_r_vir_Finite:
  assumes "0 < m" "0 < critical_density env" "0 < d"
  shows "get_r_vir env m d = Finite ((3 * m / (4 * pi * critical_density env * d)) powr (1 / 3))"
    and "0 < (3 * m / (4 * pi * critical_density env * d)) powr (1 / 3)"
proof -
  have n: "4 * pi * critical_density env * d \<noteq> 0"
    using assms by simp
  have p: "0 \<le> 3 * m / (4 * pi * critical_density env * d)"
    using assms by simp
  show "get_r_vir env m d = Finite ((3 * m / (4 * pi * critical_density env * d)) powr (1 / 3))"
    unfolding get_r_vir_def np_div_Finite [OF n] np_pow_third_Finite [OF p] ..
  show "0 < (3 * m / (4 * pi * critical_density env * d)) powr (1 / 3)"
    using assms by simp
qed

lemma backing_GroupList_set:
  "backing n (GroupList_set name g v) = (if n = name then Some v else backing n g)"
  by (cases n; cases name) (simp_all add: backing_def GroupList_set_def)

lemma obj_type_GroupList_set [simp]: "obj_type (GroupList_set name g v) = obj_type g"
  by (cases name) (simp_all add: GroupList_set_def)

lemma GroupList_get_not_loaded:
  assumes "not_loaded (backing name (inst w))"
  shows "GroupList_get persisted name w =
     (Inr (PySeq (persisted name)),
      w\<lparr>inst := GroupList_set name (inst w) (PySeq (persisted name)),
        restore_calls := restore_calls w @ [name]\<rparr>)"
  using assms
  by (simp add: GroupList_get_def Let_def restore_single_list_def backing_GroupList_set attr_def)

lemma GroupList_get_loaded:
  assumes "backing name (inst w) = Some v" "\<not> isinstance_int v"
  shows "GroupList_get persisted name w = (Inr v, w)"
  using assms by (simp add: GroupList_get_def Let_def not_loaded_def attr_def)


section \<open>Properties of unbinding\<close>

text \<open>
  C6. For a galaxy the unbinding step does nothing under the policy constants
  (\<open>UNBIND_HALOS = True\<close>, \<open>UNBIND_GALAXIES = False\<close>): it returns the structure as it
  was, so \<open>particle_indexes\<close>, the membership lists, the masses and the centre of mass are
  unchanged, no ledger of unbound indexes is created, and no member is removed.
\<close>

theorem unbind_galaxy_noop:
  assumes "obj_type g = Galaxy"
  shows "unbind env g = Inr g"
  using assms by (simp add: unbind.simps unbind_gated_def UNBIND_GALAXIES_def)

theorem unbind_galaxy_noop_witness:
  "obj_type (create_new_group Galaxy) = Galaxy \<and>
   unbind unit_sim (create_new_group Galaxy) = Inr (create_new_group Galaxy) \<and>
   unbound_indexes (create_new_group Galaxy) = None"
  using unbind_galaxy_noop [of "create_new_group Galaxy" unit_sim]
  by (simp add: create_new_group_def)





text \<open>
  C4. Across the iterations of \<open>_unbind\<close> the length of \<open>particle_indexes\<close> never
  grows and the size of the ledger never shrinks: this holds from the start of any one
  pass to its end, and from the call of \<open>_unbind\<close> to its return.
\<close>

theorem unbind_monotone:
  "(\<forall>g1 again. unbind_pass env g = Inr (g1, again) \<longrightarrow>
      plen g1 \<le> plen g \<and> ledger_size g \<le> ledger_size g1) \<and>
   (\<forall>g'. unbind env g = Inr g' \<longrightarrow> plen g' \<le> plen g \<and> ledger_size g \<le> ledger_size g')"
proof -
  have "plen g1 \<le> plen g \<and> ledger_grows g g1" if "unbind_pass env g = Inr (g1, again)"
    for g g1 again
    using unbind_pass_step [OF that] by simp
  moreover have "plen g' \<le> plen g \<and> ledger_grows g g'" if u: "unbind env g = Inr g'" for g'
  proof (rule unbind_preserves [where R = "\<lambda>a b. plen b \<le> plen a \<and> ledger_grows a b", OF _ _ _ u])
    show "plen a \<le> plen a \<and> ledger_grows a a" for a
      by (simp add: ledger_grows_refl)
    show "plen c \<le> plen a \<and> ledger_grows a c"
      if "plen b \<le> plen a \<and> ledger_grows a b" "plen c \<le> plen b \<and> ledger_grows b c" for a b c
      using that by (auto intro: ledger_grows_trans)
    show "plen b \<le> plen a \<and> ledger_grows a b" if "unbind_pass env a = Inr (b, again)"
      for a b again
      using unbind_pass_step [OF that] by simp
  qed
  ultimately show ?thesis
    by (auto dest: ledger_grows_size)
qed

theorem unbind_monotone_witness:
  "unbind_pass unit_sim four_ready = Inr (four_after, False) \<and>
   unbind unit_sim four_ready = Inr four_after \<and>
   plen four_ready = 4 \<and> plen four_after = 2 \<and>
   ledger_size four_ready = 0 \<and> ledger_size four_after = 2 \<and>
   plen four_after \<le> plen four_ready \<and> ledger_size four_ready \<le> ledger_size four_after \<and>
   unbind_pass unit_sim fringe_ready = Inr (fringe_after, False) \<and>
   unbind unit_sim fringe_ready = Inr fringe_after \<and>
   plen fringe_ready = 32 \<and> plen fringe_after = 30 \<and>
   ledger_size fringe_ready = 0 \<and> ledger_size fringe_after = 2 \<and>
   plen fringe_after \<le> plen fringe_ready \<and>
   ledger_size fringe_ready \<le> ledger_size fringe_after"
  using unbind_monotone [of unit_sim four_ready] unbind_monotone [of unit_sim fringe_ready]
    four_pass four_unbind four_plen four_ledger_size
    fringe_pass fringe_unbind fringe_plen fringe_ledger_size
  by simp



section \<open>Properties of the pipeline\<close>



section \<open>Properties of the derived quantities\<close>

text \<open>
  C8, as the specification states it, fails: the baryon entry is the sum of the gas and
  stellar entries, so adding all four entries counts the baryons twice. A halo of 32
  dark-matter particles and one gas particle, all of mass 1, is finalized with the
  entries dm = 32, gas = 1, stellar = 0, baryon = 1 and total = 33.
\<close>

theorem breakdown_sum_counterexample:
  "\<exists>g'. process_group unit_sim mixed mixed_pdata = Inr g' \<and> valid g' = Inr True \<and>
     masses g' ''dm'' = Some 32 \<and> masses g' ''gas'' = Some 1 \<and> masses g' ''stellar'' = Some 0 \<and>
     masses g' ''baryon'' = Some 1 \<and> masses g' ''total'' = Some 33 \<and>
     \<not> breakdown_sums_to_total g'"
proof -
  from mixed_process obtain g' where
    "process_group unit_sim mixed mixed_pdata = Inr g'" "valid g' = Inr True"
    "masses g' ''dm'' = Some 32" "masses g' ''gas'' = Some 1" "masses g' ''stellar'' = Some 0"
    "masses g' ''baryon'' = Some 1" "masses g' ''total'' = Some 33"
    by blast
  then show ?thesis
    by (intro exI [of _ g']) (simp add: breakdown_sums_to_total_def)
qed

text \<open>
  C8, amended. For every structure that is finalized, all of whose members are gas,
  stars or dark matter (three distinct species codes), the baryon entry is the sum of
  the gas and stellar entries, and the dm, gas and stellar entries add up to the total
  entry; equivalently the dm and baryon entries do. Sums are those of real numbers.
\<close>

theorem mass_breakdown_total:
  assumes "well_formed env g pdata" "distinct [gas env, star env, dm env]"
  shows "\<exists>g'. process_group env g pdata = Inr g' \<and>
     (valid g' = Inr True \<longrightarrow>
        (\<exists>md mg ms mb mt.
           masses g' ''dm'' = Some md \<and> masses g' ''gas'' = Some mg \<and>
           masses g' ''stellar'' = Some ms \<and> masses g' ''baryon'' = Some mb \<and>
           masses g' ''total'' = Some mt \<and>
           mb = mg + ms \<and> md + mg + ms = mt \<and> md + mb = mt))"
proof -
  from process_group_well_formed [OF assms(1)] obtain g' where
    p: "process_group env g pdata = Inr g'"
    by blast
  have "\<exists>md mg ms mb mt.
           masses g' ''dm'' = Some md \<and> masses g' ''gas'' = Some mg \<and>
           masses g' ''stellar'' = Some ms \<and> masses g' ''baryon'' = Some mb \<and>
           masses g' ''total'' = Some mt \<and>
           mb = mg + ms \<and> md + mg + ms = mt \<and> md + mb = mt"
    if v: "valid g' = Inr True"
  proof -
    from process_group_valid_masses [OF assms(1) p v] obtain rows where
      kn: "\<forall>p\<in>set rows. known_species env p" and
      m: "masses g' ''dm'' = Some (species_mass (dm env) rows)"
         "masses g' ''gas'' = Some (species_mass (gas env) rows)"
         "masses g' ''stellar'' = Some (species_mass (star env) rows)"
         "masses g' ''baryon'' = Some (species_mass (gas env) rows + species_mass (star env) rows)"
         "masses g' ''total'' = Some (sum_list (map pd_mass rows))"
      by blast
    from species_partition [OF kn assms(2)] m show ?thesis
      by simp
  qed
  with p show ?thesis by blast
qed

theorem mass_breakdown_total_witness:
  "well_formed unit_sim mixed mixed_pdata \<and>
   distinct [gas unit_sim, star unit_sim, dm unit_sim] \<and>
   (\<exists>g'. process_group unit_sim mixed mixed_pdata = Inr g' \<and> valid g' = Inr True \<and>
      (\<exists>md mg ms mb mt.
           masses g' ''dm'' = Some md \<and> masses g' ''gas'' = Some mg \<and>
           masses g' ''stellar'' = Some ms \<and> masses g' ''baryon'' = Some mb \<and>
           masses g' ''total'' = Some mt \<and>
           mb = mg + ms \<and> md + mg + ms = mt \<and> md + mb = mt))"
proof -
  have d: "distinct [gas unit_sim, star unit_sim, dm unit_sim]"
    by (simp add: unit_sim_def)
  from mixed_process obtain g1 where
    g1: "process_group unit_sim mixed mixed_pdata = Inr g1" "valid g1 = Inr True"
    by blast
  with mass_breakdown_total [OF mixed_well_formed d] mixed_well_formed d show ?thesis
    by auto
qed

text \<open>
  C5. For a structure of positive total mass, with a positive critical density and a
  non-negative gravitational constant, \<open>_calculate_virial_quantities\<close> stores the virial
  radius \<open>(3 M / (4 pi rho_crit Delta)) ^ (1/3)\<close> with \<open>Delta = 18 pi^2\<close>, r200c as the same
  expression with \<open>Delta = 200\<close>, the circular velocity \<open>sqrt (G M / r200c)\<close> and the virial
  temperature \<open>3.6e5 (v_circular / 100)^2\<close> with the velocity in km/s, each converted to
  the unit of its field. \<open>M\<close> is the total mass in Msun, the radii are in kpc before the
  conversion.
\<close>

theorem virial_quantities_formulas:
  assumes mt: "masses g ''total'' = Some mtot" and mp: "0 < mtot * conv env Mass Msun"
    and rp: "0 < critical_density env" and gp: "0 \<le> sim_G env"
  shows "\<exists>g'. calculate_virial_quantities env g = Inr g' \<and>
     (let M_total = mtot * conv env Mass Msun;
          rho_crit = critical_density env;
          r_vir = (3 * M_total / (4 * pi * rho_crit * (18 * pi\<^sup>2))) powr (1 / 3);
          r200c = (3 * M_total / (4 * pi * rho_crit * 200)) powr (1 / 3);
          v_circular = sqrt (sim_G env * M_total / r200c) * conv env Kpc_s Km_s;
          T_virial = 360000 * (v_circular / 100)\<^sup>2
      in radii g' ''virial'' = Some (Finite (r_vir * conv env Kpc Length)) \<and>
         radii g' ''r200c'' = Some (Finite (r200c * conv env Kpc Length)) \<and>
         temperatures g' ''virial'' = Some (Finite (T_virial * conv env Kelvin Temperature)) \<and>
         virial_quantities g' =
           Some [''radius'' \<mapsto> Finite (r_vir * conv env Kpc Length),
                 ''r200c'' \<mapsto> Finite (r200c * conv env Kpc Length),
                 ''circular_velocity'' \<mapsto> Finite (v_circular * conv env Km_s Velocity),
                 ''temperature'' \<mapsto> Finite (T_virial * conv env Kelvin Temperature)])"
proof -
  let ?M = "mtot * conv env Mass Msun"
  let ?r200 = "(3 * ?M / (4 * pi * critical_density env * 200)) powr (1 / 3)"
  have d1: "0 < 18 * pi\<^sup>2" and d2: "(0::real) < 200"
    by simp_all
  note r1 = get_r_vir_Finite [OF mp rp d1]
  note r2 = get_r_vir_Finite [OF mp rp d2]
  have n: "?r200 \<noteq> 0"
    using r2(2) by simp
  have nn: "0 \<le> sim_G env * ?M / ?r200"
    using gp mp r2(2) by simp
  have i: "item (masses g) ''total'' = Inr mtot"
    by (simp add: item_def mt)
  show ?thesis
    unfolding calculate_virial_quantities_def i ebind_def sum.case Let_def r1(1) r2(1)
      np_div_Finite [OF n] np_sqrt_Finite [OF nn] yt_to_Finite np_square_Finite
      np_div_Finite [of 100, simplified] np_mul.simps
    by (simp add: np_square_Finite yt_to_Finite)
qed

theorem virial_quantities_formulas_witness:
  "masses mixed_ready ''total'' = Some 33 \<and> 0 < 33 * conv unit_sim Mass Msun \<and>
   0 < critical_density unit_sim \<and> 0 \<le> sim_G unit_sim \<and>
   (\<exists>g'. calculate_virial_quantities unit_sim mixed_ready = Inr g' \<and>
     (let M_total = 33 * conv unit_sim Mass Msun;
          rho_crit = critical_density unit_sim;
          r_vir = (3 * M_total / (4 * pi * rho_crit * (18 * pi\<^sup>2))) powr (1 / 3);
          r200c = (3 * M_total / (4 * pi * rho_crit * 200)) powr (1 / 3);
          v_circular = sqrt (sim_G unit_sim * M_total / r200c) * conv unit_sim Kpc_s Km_s;
          T_virial = 360000 * (v_circular / 100)\<^sup>2
      in radii g' ''virial'' = Some (Finite (r_vir * conv unit_sim Kpc Length)) \<and>
         radii g' ''r200c'' = Some (Finite (r200c * conv unit_sim Kpc Length)) \<and>
         temperatures g' ''virial'' = Some (Finite (T_virial * conv unit_sim Kelvin Temperature)) \<and>
         virial_quantities g' =
           Some [''radius'' \<mapsto> Finite (r_vir * conv unit_sim Kpc Length),
                 ''r200c'' \<mapsto> Finite (r200c * conv unit_sim Kpc Length),
                 ''circular_velocity'' \<mapsto> Finite (v_circular * conv unit_sim Km_s Velocity),
                 ''temperature'' \<mapsto> Finite (T_virial * conv unit_sim Kelvin Temperature)]))"
proof -
  have h: "masses mixed_ready ''total'' = Some 33" "0 < 33 * conv unit_sim Mass Msun"
    "0 < critical_density unit_sim" "0 \<le> sim_G unit_sim"
    by (simp_all add: mixed_ready_def mixed_def create_new_group_def unit_sim_def)
  from virial_quantities_formulas [OF h] h show ?thesis
    by blast
qed

section \<open>Properties of the lazy membership lists\<close>

text \<open>
  C7, as the specification states it, fails for the list \<open>dmlist\<close> of a galaxy: the class
  \<open>Galaxy\<close> has no descriptor of that name, so reading the list before it was ever
  assigned raises AttributeError and calls no loader.
\<close>

theorem lazy_list_read_counterexample:
  "not_loaded (backing Dmlist (inst galaxy_world)) \<and>
   read_list stored_lists Dmlist galaxy_world = (Inl AttributeError, galaxy_world) \<and>
   restore_calls galaxy_world = []"
  by (simp add: galaxy_world_def create_new_group_def read_list_def has_descriptor_def
      backing_def not_loaded_def attr_def)

text \<open>
  C7, amended. For \<open>glist\<close> and \<open>slist\<close> of any structure and \<open>dmlist\<close> of a halo: a read
  while the list is not loaded makes one call to the loader, for that list, and returns
  the restored sequence; a further read returns the same sequence and leaves the
  structure and the log of calls as they are; a read of a loaded list makes no call; no
  read or write touches another list; a write replaces the value and calls nothing.
\<close>

theorem lazy_list_read:
  assumes d: "has_descriptor (obj_type (inst w)) name"
  shows "(not_loaded (backing name (inst w)) \<longrightarrow>
            (\<exists>w1. read_list persisted name w = (Inr (PySeq (persisted name)), w1) \<and>
                  restore_calls w1 = restore_calls w @ [name] \<and>
                  read_list persisted name w1 = (Inr (PySeq (persisted name)), w1) \<and>
                  (\<forall>n. n \<noteq> name \<longrightarrow> backing n (inst w1) = backing n (inst w)))) \<and>
         (\<not> not_loaded (backing name (inst w)) \<longrightarrow>
            (\<exists>v. backing name (inst w) = Some v \<and> read_list persisted name w = (Inr v, w))) \<and>
         backing name (inst (write_list name v w)) = Some v \<and>
         restore_calls (write_list name v w) = restore_calls w \<and>
         (\<forall>n. n \<noteq> name \<longrightarrow> backing n (inst (write_list name v w)) = backing n (inst w))"
proof -
  have a: "\<exists>w1. read_list persisted name w = (Inr (PySeq (persisted name)), w1) \<and>
                  restore_calls w1 = restore_calls w @ [name] \<and>
                  read_list persisted name w1 = (Inr (PySeq (persisted name)), w1) \<and>
                  (\<forall>n. n \<noteq> name \<longrightarrow> backing n (inst w1) = backing n (inst w))"
    if nl: "not_loaded (backing name (inst w))"
  proof -
    define w1 where "w1 = w\<lparr>inst := GroupList_set name (inst w) (PySeq (persisted name)),
        restore_calls := restore_calls w @ [name]\<rparr>"
    have "read_list persisted name w = (Inr (PySeq (persisted name)), w1)"
      using d GroupList_get_not_loaded [OF nl] by (simp add: read_list_def w1_def)
    moreover have "read_list persisted name w1 = (Inr (PySeq (persisted name)), w1)"
      using d GroupList_get_loaded [of name w1 "PySeq (persisted name)" persisted]
      by (simp add: read_list_def w1_def backing_GroupList_set)
    ultimately show ?thesis
      by (intro exI [of _ w1]) (simp add: w1_def backing_GroupList_set)
  qed
  have b: "\<exists>v. backing name (inst w) = Some v \<and> read_list persisted name w = (Inr v, w)"
    if "\<not> not_loaded (backing name (inst w))"
    using that d GroupList_get_loaded [of name w _ persisted]
    by (auto simp: read_list_def not_loaded_def split: option.splits)
  show ?thesis
    using a b by (simp add: write_list_def backing_GroupList_set)
qed

theorem lazy_list_read_witness:
  "has_descriptor (obj_type (inst halo_world)) Dmlist \<and>
   not_loaded (backing Dmlist (inst halo_world)) \<and>
   (\<exists>w1. read_list stored_lists Dmlist halo_world = (Inr (PySeq [7, 8]), w1) \<and>
         restore_calls w1 = [Dmlist] \<and>
         read_list stored_lists Dmlist w1 = (Inr (PySeq [7, 8]), w1) \<and>
         backing Glist (inst w1) = None \<and> backing Slist (inst w1) = None)"
proof -
  have h: "has_descriptor (obj_type (inst halo_world)) Dmlist"
    "not_loaded (backing Dmlist (inst halo_world))"
    "backing Glist (inst halo_world) = None" "backing Slist (inst halo_world) = None"
    "restore_calls halo_world = []" "stored_lists Dmlist = [7, 8]"
    by (simp_all add: halo_world_def create_new_group_def has_descriptor_def backing_def
        not_loaded_def stored_lists_def)
  from lazy_list_read [OF h(1), of stored_lists] h(2) obtain w1 where
    "read_list stored_lists Dmlist halo_world = (Inr (PySeq (stored_lists Dmlist)), w1)"
    "restore_calls w1 = restore_calls halo_world @ [Dmlist]"
    "read_list stored_lists Dmlist w1 = (Inr (PySeq (stored_lists Dmlist)), w1)"
    "\<forall>n. n \<noteq> Dmlist \<longrightarrow> backing n (inst w1) = backing n (inst halo_world)"
    by blast
  with h show ?thesis
    by (intro conjI exI [of _ w1]) simp_all
qed

text \<open>
  C10, as stated, fails for the list \<open>dmlist\<close> of a galaxy: after an int is written, the
  next read returns the int and the loader is not called.
\<close>

theorem lazy_list_sentinel_counterexample:
  "isinstance_int (PyInt 5) \<and>
   read_list stored_lists Dmlist (write_list Dmlist (PyInt 5) galaxy_world) =
     (Inr (PyInt 5), write_list Dmlist (PyInt 5) galaxy_world) \<and>
   restore_calls (write_list Dmlist (PyInt 5) galaxy_world) = []"
  by (simp add: galaxy_world_def create_new_group_def read_list_def has_descriptor_def
      backing_def write_list_def GroupList_set_def attr_def)

text \<open>
  C10, amended. A value that is not an int, written to any of the three lists, is what
  the next read returns, with no call to the loader. For \<open>glist\<close> and \<open>slist\<close> of any
  structure and \<open>dmlist\<close> of a halo, the sentinel is an absent backing attribute or an
  int: after an int is written, or while the attribute is absent, the next read calls
  the loader and returns the restored sequence, not the int.
\<close>

theorem lazy_list_sentinel:
  "(\<not> isinstance_int v \<longrightarrow>
      read_list persisted name (write_list name v w) = (Inr v, write_list name v w)) \<and>
   (has_descriptor (obj_type (inst w)) name \<and> isinstance_int v \<longrightarrow>
      (\<exists>w1. read_list persisted name (write_list name v w) = (Inr (PySeq (persisted name)), w1) \<and>
            restore_calls w1 = restore_calls w @ [name])) \<and>
   (has_descriptor (obj_type (inst w)) name \<and> backing name (inst w) = None \<longrightarrow>
      (\<exists>w1. read_list persisted name w = (Inr (PySeq (persisted name)), w1) \<and>
            restore_calls w1 = restore_calls w @ [name]))"
proof -
  have b: "backing name (inst (write_list name v w)) = Some v"
    by (simp add: write_list_def backing_GroupList_set)
  have "read_list persisted name (write_list name v w) = (Inr v, write_list name v w)"
    if "\<not> isinstance_int v"
    using GroupList_get_loaded [OF b that, of persisted] b
    by (simp add: read_list_def attr_def)
  moreover have "\<exists>w1. read_list persisted name (write_list name v w) =
            (Inr (PySeq (persisted name)), w1) \<and> restore_calls w1 = restore_calls w @ [name]"
    if "has_descriptor (obj_type (inst w)) name" "isinstance_int v"
  proof -
    have "not_loaded (backing name (inst (write_list name v w)))"
      using b that(2) by (simp add: not_loaded_def)
    from GroupList_get_not_loaded [OF this, of persisted] that(1) show ?thesis
      by (simp add: read_list_def write_list_def)
  qed
  moreover have "\<exists>w1. read_list persisted name w = (Inr (PySeq (persisted name)), w1) \<and>
            restore_calls w1 = restore_calls w @ [name]"
    if "has_descriptor (obj_type (inst w)) name" "backing name (inst w) = None"
  proof -
    have "not_loaded (backing name (inst w))"
      using that(2) by (simp add: not_loaded_def)
    from GroupList_get_not_loaded [OF this, of persisted] that(1) show ?thesis
      by (simp add: read_list_def)
  qed
  ultimately show ?thesis by blast
qed

theorem lazy_list_sentinel_witness:
  "\<not> isinstance_int (PySeq []) \<and>
   read_list stored_lists Glist (write_list Glist (PySeq []) halo_world) =
     (Inr (PySeq []), write_list Glist (PySeq []) halo_world) \<and>
   has_descriptor (obj_type (inst halo_world)) Glist \<and> isinstance_int (PyInt 0) \<and>
   (\<exists>w1. read_list stored_lists Glist (write_list Glist (PyInt 0) halo_world) =
           (Inr (PySeq [3, 5]), w1) \<and> restore_calls w1 = [Glist]) \<and>
   backing Glist (inst halo_world) = None \<and>
   (\<exists>w1. read_list stored_lists Glist halo_world = (Inr (PySeq [3, 5]), w1) \<and>
         restore_calls w1 = [Glist])"
proof -
  have h: "\<not> isinstance_int (PySeq [])" "has_descriptor (obj_type (inst halo_world)) Glist"
    "isinstance_int (PyInt 0)" "backing Glist (inst halo_world) = None"
    "restore_calls halo_world = []" "stored_lists Glist = [3, 5]"
    by (simp_all add: halo_world_def create_new_group_def has_descriptor_def backing_def
        stored_lists_def)
  from lazy_list_sentinel [of "PySeq []" stored_lists Glist halo_world] h(1)
  have 1: "read_list stored_lists Glist (write_list Glist (PySeq []) halo_world) =
     (Inr (PySeq []), write_list Glist (PySeq []) halo_world)"
    by blast
  from lazy_list_sentinel [of "PyInt 0" stored_lists Glist halo_world] h
  have 2: "\<exists>w1. read_list stored_lists Glist (write_list Glist (PyInt 0) halo_world) =
           (Inr (PySeq [3, 5]), w1) \<and> restore_calls w1 = [Glist]"
    "\<exists>w1. read_list stored_lists Glist halo_world = (Inr (PySeq [3, 5]), w1) \<and>
         restore_calls w1 = [Glist]"
    by auto
  from 1 2 h show ?thesis by blast
qed

end
